theory Spec2Isabelle
  imports Complex_Main "HOL-Library.Sublist"
begin

section \<open>JavaScript strings and regular expressions\<close>

text \<open>
  A JavaScript string is modelled as a \<^typ>\<open>string\<close>; every \<^typ>\<open>char\<close> stands for one
  UTF-16 code unit below 256. The white space of \<open>\s\<close> and of \<open>String.prototype.trim\<close>
  in that range is TAB, LF, VT, FF, CR, SPACE and NBSP. Case-insensitive matching (the
  \<open>i\<close> flag) only ever identifies the ASCII letters with one another here, since every
  letter that occurs in a pattern of this program is an ASCII letter.
\<close>

definition lower :: "char \<Rightarrow> char" where
  "lower c = (case map_of (zip ''ABCDEFGHIJKLMNOPQRSTUVWXYZ'' ''abcdefghijklmnopqrstuvwxyz'') c of
                Some d \<Rightarrow> d | None \<Rightarrow> c)"

definition is_ws :: "char \<Rightarrow> bool" where
  "is_ws c = (c \<in> set [CHR 0x09, CHR 0x0A, CHR 0x0B, CHR 0x0C, CHR 0x0D, CHR 0x20, CHR 0xA0])"

definition trim :: "string \<Rightarrow> string" where
  "trim s = rev (dropWhile is_ws (rev (dropWhile is_ws s)))"

text \<open>\<open>s.includes(t)\<close> and \<open>s.startsWith(t)\<close>.\<close>

definition str_includes :: "string \<Rightarrow> string \<Rightarrow> bool" where
  "str_includes s t = list_ex (prefix t) (suffixes s)"

definition startsWith :: "string \<Rightarrow> string \<Rightarrow> bool" where
  "startsWith s t = prefix t s"

text \<open>
  The regular expressions of the program, as far as it uses them: literals, a single
  character of a class, a greedy repetition of a class (at least \<open>n\<close> times), sequence,
  alternative, one capture group, and the anchors \<open>^\<close> and \<open>$\<close> (no \<open>m\<close> flag is ever set).
  Matching follows the backtracking order of ECMAScript: \<open>m\<close> returns every way of matching
  at the current position, most preferred first. A state is the index reached, the rest of
  the input, and the text captured by group 1.
\<close>

datatype rx =
    Lit string
  | Cls "char \<Rightarrow> bool"
  | Rep "char \<Rightarrow> bool" nat
  | Seq rx rx
  | Alt rx rx
  | Grp rx
  | Bos
  | Eos

type_synonym mstate = "nat \<times> string \<times> string option"

definition eqc :: "bool \<Rightarrow> char \<Rightarrow> char \<Rightarrow> bool" where
  "eqc ci a b = (if ci then lower a = lower b else a = b)"

definition lit_prefix :: "bool \<Rightarrow> string \<Rightarrow> string \<Rightarrow> bool" where
  "lit_prefix ci l s = (length l \<le> length s \<and> list_all2 (eqc ci) l (take (length l) s))"

fun m :: "bool \<Rightarrow> rx \<Rightarrow> mstate \<Rightarrow> mstate list" where
  "m ci (Lit l) (i, s, c) =
     (if lit_prefix ci l s then [(i + length l, drop (length l) s, c)] else [])"
| "m ci (Cls p) (i, s, c) =
     (case s of [] \<Rightarrow> [] | x # xs \<Rightarrow> if p x then [(Suc i, xs, c)] else [])"
| "m ci (Rep p n) (i, s, c) =
     (let k = length (takeWhile p s) in map (\<lambda>j. (i + j, drop j s, c)) (rev [n..<Suc k]))"
| "m ci (Seq a b) st = concat (map (m ci b) (m ci a st))"
| "m ci (Alt a b) st = m ci a st @ m ci b st"
| "m ci (Grp r) (i, s, c) =
     map (\<lambda>(j, t, _). (j, t, Some (take (j - i) s))) (m ci r (i, s, c))"
| "m ci Bos (i, s, c) = (if i = 0 then [(i, s, c)] else [])"
| "m ci Eos (i, s, c) = (if s = [] then [(i, s, c)] else [])"

text \<open>
  The leftmost match at or after index \<open>i\<close>, where \<open>s\<close> is the input from \<open>i\<close> on: the
  start index and the preferred final state.
\<close>

fun search :: "bool \<Rightarrow> rx \<Rightarrow> nat \<Rightarrow> string \<Rightarrow> (nat \<times> mstate) option" where
  "search ci r i [] =
     (case m ci r (i, [], None) of [] \<Rightarrow> None | st # _ \<Rightarrow> Some (i, st))"
| "search ci r i (x # xs) =
     (case m ci r (i, x # xs, None) of [] \<Rightarrow> search ci r (Suc i) xs | st # _ \<Rightarrow> Some (i, st))"

text \<open>\<open>re.test(s)\<close>, and \<open>s.replace(re, rep)\<close> for a pattern without the \<open>g\<close> flag.\<close>

definition rx_test :: "bool \<Rightarrow> rx \<Rightarrow> string \<Rightarrow> bool" where
  "rx_test ci r s = (search ci r 0 s \<noteq> None)"

definition rx_replace1 :: "bool \<Rightarrow> rx \<Rightarrow> string \<Rightarrow> string \<Rightarrow> string" where
  "rx_replace1 ci r rep s =
     (case search ci r 0 s of
        None \<Rightarrow> s
      | Some (b, (e, _, _)) \<Rightarrow> take b s @ rep @ drop e s)"

text \<open>A sequence of patterns, and \<open>a || b\<close> on strings.\<close>

fun seqs :: "rx list \<Rightarrow> rx" where
  "seqs [] = Lit []"
| "seqs [r] = r"
| "seqs (r # rs) = Seq r (seqs rs)"

definition str_or :: "string \<Rightarrow> string \<Rightarrow> string" where
  "str_or a b = (if a \<noteq> [] then a else b)"

text \<open>
  The captures of the successive matches of a pattern with the \<open>g\<close> flag, as the loop
  \<open>while ((m = re.exec(s)) !== null)\<close> sees them: each search starts where the last match
  ended. \<open>k\<close> counts the characters still inside the last match and \<open>i\<close> is the index of
  the rest of the input. (For a pattern that matches the empty string the JavaScript loop
  would not advance; no pattern of this program does.)
\<close>

fun exec_all :: "bool \<Rightarrow> rx \<Rightarrow> nat \<Rightarrow> nat \<Rightarrow> string \<Rightarrow> string option list" where
  "exec_all ci r k i [] =
     (if k = 0 then (case m ci r (i, [], None) of [] \<Rightarrow> [] | (e, _, cap) # _ \<Rightarrow> [cap]) else [])"
| "exec_all ci r (Suc k) i (x # xs) = exec_all ci r k (Suc i) xs"
| "exec_all ci r 0 i (x # xs) =
     (case m ci r (i, x # xs, None) of
        [] \<Rightarrow> exec_all ci r 0 (Suc i) xs
      | (e, _, cap) # _ \<Rightarrow> cap # exec_all ci r (e - i - 1) (Suc i) xs)"

text \<open>
  \<open>s.replace(/pat/g, rep)\<close> for a literal pattern that is not empty: every occurrence,
  from left to right, without overlap.
\<close>

function replace_all :: "string \<Rightarrow> string \<Rightarrow> string \<Rightarrow> string" where
  "replace_all pat rep [] = []"
| "replace_all pat rep (x # xs) =
     (if pat \<noteq> [] \<and> prefix pat (x # xs)
      then rep @ replace_all pat rep (drop (length pat) (x # xs))
      else x # replace_all pat rep xs)"
  by pat_completeness auto
termination
  by (relation "measure (\<lambda>(pat, rep, s). length s)") (auto simp: neq_Nil_conv)

section \<open>JavaScript values that come from JSON\<close>

text \<open>
  The values the handlers receive are parsed JSON. A number is kept as the text that
  \<open>String\<close> gives for it, so zero is \<open>''0''\<close>. An object is the list of its own
  properties. The result of reading a property is an optional value, with \<open>None\<close> for
  \<open>undefined\<close>.
\<close>

datatype json =
    JNull
  | JBool bool
  | JNum string
  | JStr string
  | JArr "json list"
  | JObj "(string \<times> json) list"

datatype js_error = TypeError | SyntaxError | Error string

text \<open>
  \<open>v.k\<close> for the property names this program reads (\<open>url\<close>, \<open>cookies\<close>, \<open>cookie\<close>,
  \<open>name\<close>, \<open>value\<close>, \<open>domain\<close>, \<open>path\<close>, \<open>httpOnly\<close>, \<open>secure\<close>, \<open>sameSite\<close>,
  \<open>expires\<close>): none of them is defined on a prototype, so only an object can have one.
  Reading a property of \<open>null\<close> throws; \<open>js_prop\<close> is the read of a value known not to be
  \<open>null\<close>.
\<close>

definition js_prop :: "json \<Rightarrow> string \<Rightarrow> json option" where
  "js_prop v k = (case v of JObj kvs \<Rightarrow> map_of kvs k | _ \<Rightarrow> None)"

definition js_get :: "json \<Rightarrow> string \<Rightarrow> js_error + json option" where
  "js_get v k = (if v = JNull then Inl TypeError else Inr (js_prop v k))"

definition truthy :: "json option \<Rightarrow> bool" where
  "truthy v =
     (case v of
        None \<Rightarrow> False
      | Some JNull \<Rightarrow> False
      | Some (JBool b) \<Rightarrow> b
      | Some (JNum n) \<Rightarrow> n \<noteq> ''0'' \<and> n \<noteq> ''NaN''
      | Some (JStr t) \<Rightarrow> t \<noteq> []
      | Some _ \<Rightarrow> True)"

text \<open>\<open>a || b\<close>.\<close>

definition js_or :: "json option \<Rightarrow> json \<Rightarrow> json" where
  "js_or a b = (case a of None \<Rightarrow> b | Some v \<Rightarrow> if truthy a then v else b)"

text \<open>
  \<open>String(v)\<close>. An array is joined with commas, \<open>null\<close> elements giving the empty string.
  A plain object gives \<open>[object Object]\<close>, unless it has a property \<open>toString\<close> of its
  own: a JSON value is never callable, so the conversion finds no method that returns a
  primitive and throws.
\<close>

fun js_String :: "json \<Rightarrow> js_error + string"
  and js_join :: "json list \<Rightarrow> js_error + string" where
  "js_String JNull = Inr ''null''"
| "js_String (JBool b) = Inr (if b then ''true'' else ''false'')"
| "js_String (JNum n) = Inr n"
| "js_String (JStr t) = Inr t"
| "js_String (JArr xs) = js_join xs"
| "js_String (JObj kvs) =
     (if map_of kvs ''toString'' \<noteq> None then Inl TypeError else Inr ''[object Object]'')"
| "js_join [] = Inr []"
| "js_join (x # xs) =
     (case (if x = JNull then Inr [] else js_String x) of
        Inl e \<Rightarrow> Inl e
      | Inr t \<Rightarrow>
          if xs = [] then Inr t
          else (case js_join xs of Inl e \<Rightarrow> Inl e | Inr ts \<Rightarrow> Inr (t @ '','' @ ts)))"

section \<open>The platform: URL objects and the functions the program calls\<close>

text \<open>
  A URL record as the URL standard has it. Only a URL with a list path can have a host,
  and only a URL with a host can have credentials or a port. An absent port is the empty
  string, as the \<open>port\<close> getter gives it.
\<close>

record authority =
  username :: string
  password :: string
  hostname :: string
  port :: string

datatype location = OpaquePath string | ListPath "authority option" string

record url =
  scheme :: string
  loc :: location
  query :: "string option"
  fragment :: "string option"

text \<open>
  What the program takes from its runtime. \<open>URL_parse s\<close> is \<open>new URL(s)\<close> and
  \<open>URL_resolve s base\<close> is \<open>new URL(s, base)\<close>, \<open>None\<close> when the constructor throws.
  \<open>urlencoded\<close> parses a query string into the name-value list behind \<open>searchParams\<close>.
  \<open>decodeURIComponent\<close> is \<open>None\<close> when it throws \<open>URIError\<close>, and \<open>JSON_parse\<close> when
  it throws \<open>SyntaxError\<close>.
\<close>

record platform =
  URL_parse :: "string \<Rightarrow> url option"
  URL_resolve :: "string \<Rightarrow> string \<Rightarrow> url option"
  urlencoded :: "string \<Rightarrow> (string \<times> string) list"
  decodeURIComponent :: "string \<Rightarrow> string option"
  JSON_parse :: "string \<Rightarrow> json option"

definition url_hostname :: "url \<Rightarrow> string" where
  "url_hostname u = (case loc u of ListPath (Some a) _ \<Rightarrow> hostname a | _ \<Rightarrow> [])"

definition url_host :: "url \<Rightarrow> string" where
  "url_host u =
     (case loc u of
        ListPath (Some a) _ \<Rightarrow> hostname a @ (if port a = [] then [] else '':'' @ port a)
      | _ \<Rightarrow> [])"

definition url_pathname :: "url \<Rightarrow> string" where
  "url_pathname u = (case loc u of OpaquePath p \<Rightarrow> p | ListPath _ p \<Rightarrow> p)"

definition credentials :: "authority \<Rightarrow> string" where
  "credentials a =
     (if username a \<noteq> [] \<or> password a \<noteq> []
      then username a @ (if password a \<noteq> [] then '':'' @ password a else []) @ ''@''
      else [])"

definition url_href :: "url \<Rightarrow> string" where
  "url_href u =
     scheme u @ '':'' @
     (case loc u of
        OpaquePath p \<Rightarrow> p
      | ListPath None p \<Rightarrow> (if prefix ''//'' p then ''/.'' else []) @ p
      | ListPath (Some a) p \<Rightarrow>
          ''//'' @ credentials a @ hostname a @ (if port a = [] then [] else '':'' @ port a) @ p) @
     (case query u of None \<Rightarrow> [] | Some q \<Rightarrow> ''?'' @ q) @
     (case fragment u of None \<Rightarrow> [] | Some f \<Rightarrow> ''#'' @ f)"

definition url_origin :: "platform \<Rightarrow> url \<Rightarrow> string" where
  "url_origin P u =
     (if scheme u \<in> set [''http'', ''https'', ''ftp'', ''ws'', ''wss'']
      then scheme u @ ''://'' @ url_host u
      else if scheme u = ''blob''
      then (case URL_parse P (url_pathname u) of
              None \<Rightarrow> ''null''
            | Some v \<Rightarrow> if scheme v \<in> set [''http'', ''https'']
                        then scheme v @ ''://'' @ url_host v else ''null'')
      else ''null'')"

text \<open>The \<open>hostname\<close> setter, for a value that is a valid host: no effect on an opaque path.\<close>

definition set_hostname :: "url \<Rightarrow> string \<Rightarrow> url" where
  "set_hostname u h =
     (case loc u of
        OpaquePath _ \<Rightarrow> u
      | ListPath None p \<Rightarrow>
          u\<lparr>loc := ListPath (Some \<lparr>username = [], password = [], hostname = h, port = []\<rparr>) p\<rparr>
      | ListPath (Some a) p \<Rightarrow> u\<lparr>loc := ListPath (Some (a\<lparr>hostname := h\<rparr>)) p\<rparr>)"

definition searchParams_get :: "platform \<Rightarrow> url \<Rightarrow> string \<Rightarrow> string option" where
  "searchParams_get P u k =
     map_of (case query u of None \<Rightarrow> [] | Some q \<Rightarrow> urlencoded P q) k"

section \<open>screenshot-post: the URL normalizer\<close>

text \<open>\<open>/facebook\.com$/i\<close> and \<open>/^www\./\<close>.\<close>

definition rx_facebook_com :: rx where
  "rx_facebook_com = Seq (Lit ''facebook.com'') Eos"

definition rx_www :: rx where
  "rx_www = Seq Bos (Lit ''www.'')"

text \<open>
  \<open>normalizeFacebookUrl\<close>: the \<open>catch\<close> branch returns the input, so the function returns a
  string on every input.
\<close>

definition normalizeFacebookUrl :: "platform \<Rightarrow> string \<Rightarrow> string" where
  "normalizeFacebookUrl P input =
     (case URL_parse P input of
        None \<Rightarrow> input
      | Some u \<Rightarrow>
          if rx_test True rx_facebook_com (url_hostname u)
             \<or> rx_test True rx_facebook_com (rx_replace1 False rx_www [] (url_hostname u))
          then url_href (set_hostname u ''mbasic.facebook.com'')
          else input)"

text \<open>
  The target domain: \<open>facebook.com\<close> and its subdomains, whatever the case of the letters.
\<close>

definition in_facebook_domain :: "string \<Rightarrow> bool" where
  "in_facebook_domain h \<longleftrightarrow>
     map lower h = ''facebook.com'' \<or> suffix ''.facebook.com'' (map lower h)"

text \<open>
  \<open>event.body ? JSON.parse(event.body) : {}\<close>, where \<open>event.body\<close> is a string or absent.
\<close>

definition request_body :: "platform \<Rightarrow> string option \<Rightarrow> js_error + json" where
  "request_body P event_body =
     (case event_body of
        None \<Rightarrow> Inr (JObj [])
      | Some b \<Rightarrow>
          if b = [] then Inr (JObj [])
          else (case JSON_parse P b of None \<Rightarrow> Inl SyntaxError | Some j \<Rightarrow> Inr j))"

text \<open>
  The handler's reading of the address (lines 29 to 41); every exception of the block is
  answered with status 400.
\<close>

definition request_url :: "platform \<Rightarrow> string option \<Rightarrow> js_error + string" where
  "request_url P event_body =
     (case request_body P event_body of
        Inl e \<Rightarrow> Inl e
      | Inr body \<Rightarrow>
          (case js_get body ''url'' of
             Inl e \<Rightarrow> Inl e
           | Inr v \<Rightarrow>
               (case js_String (js_or v (JStr [])) of
                  Inl e \<Rightarrow> Inl e
                | Inr t \<Rightarrow>
                    if trim t = [] then Inl (Error ''Missing url'')
                    else Inr (normalizeFacebookUrl P (trim t)))))"

section \<open>fb-scrape: the candidate generator\<close>

text \<open>
  \<open>buildCandidateUrls\<close>. The constructor \<open>new URL(input)\<close> is not guarded here: its
  exception leaves the function. \<open>s.substring(n)\<close> is \<open>drop n s\<close>.
\<close>

definition buildCandidateUrls :: "platform \<Rightarrow> string \<Rightarrow> js_error + string list" where
  "buildCandidateUrls P input =
     (case URL_parse P input of
        None \<Rightarrow> Inl TypeError
      | Some u \<Rightarrow>
          let hosts0 = [url_host u];
              hosts1 = (if ''m.facebook.com'' \<in> set hosts0 then hosts0
                        else hosts0 @ [''m.facebook.com'']);
              hosts2 = (if ''mbasic.facebook.com'' \<in> set hosts1 then hosts1
                        else hosts1 @ [''mbasic.facebook.com'']);
              paths = drop (length (url_origin P u)) (url_href u)
          in Inr (map (\<lambda>h. ''https://'' @ h @ paths) hosts2))"

text \<open>
  For a web address without credentials the part after the origin is path, query and
  fragment, and the hosts are the original host followed by the mirrors it is not.
\<close>

definition url_tail :: "url \<Rightarrow> string" where
  "url_tail u =
     url_pathname u @
     (case query u of None \<Rightarrow> [] | Some q \<Rightarrow> ''?'' @ q) @
     (case fragment u of None \<Rightarrow> [] | Some f \<Rightarrow> ''#'' @ f)"

definition candidate_hosts :: "string \<Rightarrow> string list" where
  "candidate_hosts h = h # filter (\<lambda>x. x \<noteq> h) [''m.facebook.com'', ''mbasic.facebook.com'']"

section \<open>screenshot-post: the cookie parser\<close>

text \<open>
  A cookie record as \<open>sanitizeCookiesArray\<close> builds it. \<open>domain\<close>, \<open>path\<close> and \<open>sameSite\<close>
  are passed through from the input, so they are JSON values; \<open>sameSite\<close> and \<open>expires\<close>
  may be absent from the object.
\<close>

record cookie =
  name :: string
  value' :: string
  domain :: json
  path :: json
  httpOnly :: bool
  secure :: bool
  sameSite :: "json option"
  expires :: "string option"

text \<open>\<open>xs.map(f)\<close> for an \<open>f\<close> that may throw.\<close>

fun map_err :: "('a \<Rightarrow> 'e + 'b) \<Rightarrow> 'a list \<Rightarrow> 'e + 'b list" where
  "map_err f [] = Inr []"
| "map_err f (x # xs) =
     (case f x of
        Inl e \<Rightarrow> Inl e
      | Inr y \<Rightarrow> (case map_err f xs of Inl e \<Rightarrow> Inl e | Inr ys \<Rightarrow> Inr (y # ys)))"

text \<open>\<open>xs.filter(Boolean)\<close> on a list of objects and \<open>null\<close>s.\<close>

definition filter_Boolean :: "'a option list \<Rightarrow> 'a list" where
  "filter_Boolean xs = map the (filter (\<lambda>x. x \<noteq> None) xs)"

text \<open>
  The callback of \<open>sanitizeCookiesArray\<close> on one element. Both \<open>String\<close> conversions
  come before the test of the name, and reading \<open>c.name\<close> throws when \<open>c\<close> is \<open>null\<close>.
\<close>

definition sanitizeCookie :: "json \<Rightarrow> js_error + cookie option" where
  "sanitizeCookie c =
     (case js_get c ''name'' of
        Inl e \<Rightarrow> Inl e
      | Inr n \<Rightarrow>
          (case js_String (js_or n (JStr [])) of
             Inl e \<Rightarrow> Inl e
           | Inr ns \<Rightarrow>
               (case js_String (js_or (js_prop c ''value'') (JStr [])) of
                  Inl e \<Rightarrow> Inl e
                | Inr vs \<Rightarrow>
                    if trim ns = [] then Inr None
                    else Inr (Some
                      \<lparr>name = trim ns,
                       value' = trim vs,
                       domain = js_or (js_prop c ''domain'') (JStr ''.facebook.com''),
                       path = js_or (js_prop c ''path'') (JStr ''/''),
                       httpOnly = truthy (js_prop c ''httpOnly''),
                       secure = (case js_prop c ''secure'' of Some (JBool b) \<Rightarrow> b | _ \<Rightarrow> True),
                       sameSite = Some (js_or (js_prop c ''sameSite'') (JStr ''Lax'')),
                       expires = (case js_prop c ''expires'' of
                                    Some (JNum x) \<Rightarrow> Some x | _ \<Rightarrow> None)\<rparr>))))"

definition sanitizeCookiesArray :: "json \<Rightarrow> js_error + cookie list" where
  "sanitizeCookiesArray arr =
     (case arr of
        JArr xs \<Rightarrow>
          (case map_err sanitizeCookie xs of Inl e \<Rightarrow> Inl e | Inr cs \<Rightarrow> Inr (filter_Boolean cs))
      | _ \<Rightarrow> Inr [])"

text \<open>\<open>s.split(c)\<close> for a separator of one character.\<close>

fun split_on :: "char \<Rightarrow> string \<Rightarrow> string list" where
  "split_on c [] = [[]]"
| "split_on c (x # xs) =
     (if x = c then [] # split_on c xs
      else (case split_on c xs of [] \<Rightarrow> [[x]] | y # ys \<Rightarrow> (x # y) # ys))"

text \<open>
  The callback of the header branch of \<open>parseCookies\<close> on one part \<open>name=value\<close>: with
  \<open>eq\<close> the index of the first \<open>=\<close>, the name is \<open>p.slice(0, eq)\<close> and the value is
  \<open>p.slice(eq + 1)\<close>. The record has no \<open>sameSite\<close>.
\<close>

definition headerCookie :: "string \<Rightarrow> cookie option" where
  "headerCookie p =
     (if CHR ''='' \<notin> set p then None
      else Some
        \<lparr>name = trim (takeWhile (\<lambda>x. x \<noteq> CHR ''='') p),
         value' = trim (drop 1 (dropWhile (\<lambda>x. x \<noteq> CHR ''='') p)),
         domain = JStr ''.facebook.com'',
         path = JStr ''/'',
         httpOnly = False,
         secure = True,
         sameSite = None,
         expires = None\<rparr>)"

text \<open>
  \<open>parseCookies\<close>: the body of its \<open>try\<close> block, and the function itself, whose \<open>catch\<close>
  falls through to \<open>return []\<close>.
\<close>

definition parseCookies_try :: "platform \<Rightarrow> json \<Rightarrow> js_error + cookie list" where
  "parseCookies_try P input =
     (case input of
        JArr xs \<Rightarrow> sanitizeCookiesArray input
      | JStr t \<Rightarrow>
          let trimmed = trim t in
          if trimmed = [] then Inr []
          else if startsWith trimmed ''[''
          then (case JSON_parse P trimmed of
                  None \<Rightarrow> Inl SyntaxError
                | Some arr \<Rightarrow> sanitizeCookiesArray arr)
          else Inr (filter_Boolean (map headerCookie
                  (filter (\<lambda>x. x \<noteq> []) (map trim (split_on CHR '';'' trimmed)))))
      | _ \<Rightarrow> Inr [])"

definition parseCookies :: "platform \<Rightarrow> json \<Rightarrow> cookie list" where
  "parseCookies P input =
     (if \<not> truthy (Some input) then []
      else (case parseCookies_try P input of Inl e \<Rightarrow> [] | Inr cs \<Rightarrow> cs))"

text \<open>A cookie record as the JavaScript object it is, to hand it to the parser again.\<close>

definition cookie_json :: "cookie \<Rightarrow> json" where
  "cookie_json c =
     JObj ([(''name'', JStr (name c)), (''value'', JStr (value' c)), (''domain'', domain c),
            (''path'', path c), (''httpOnly'', JBool (httpOnly c)), (''secure'', JBool (secure c))]
           @ (case sameSite c of None \<Rightarrow> [] | Some v \<Rightarrow> [(''sameSite'', v)])
           @ (case expires c of None \<Rightarrow> [] | Some x \<Rightarrow> [(''expires'', JNum x)]))"

text \<open>
  The invariant of a normalized record: a name that is not empty, name and value trimmed,
  and \<open>domain\<close>, \<open>path\<close> and \<open>sameSite\<close> present and truthy.
\<close>

definition normal_cookie :: "cookie \<Rightarrow> bool" where
  "normal_cookie c \<longleftrightarrow>
     name c \<noteq> [] \<and> trim (name c) = name c \<and> trim (value' c) = value' c
     \<and> truthy (Some (domain c)) \<and> truthy (Some (path c))
     \<and> (case sameSite c of None \<Rightarrow> False | Some v \<Rightarrow> truthy (Some v))"

section \<open>screenshot-post: the render pipeline\<close>

text \<open>
  \<open>getCookieInput\<close>, with the two environment strings \<open>ENV_COOKIES_JSON\<close> and
  \<open>ENV_COOKIE_HEADER\<close> as parameters.
\<close>

definition getCookieInput :: "platform \<Rightarrow> string \<Rightarrow> string \<Rightarrow> string option \<Rightarrow> json" where
  "getCookieInput P env_json env_header event_body =
     (let env = JStr (if env_json \<noteq> [] then env_json else env_header) in
      case request_body P event_body of
        Inl e \<Rightarrow> env
      | Inr body \<Rightarrow>
          (case js_get body ''cookies'' of
             Inl e \<Rightarrow> env
           | Inr c \<Rightarrow> js_or c (js_or (js_prop body ''cookie'') env)))"

text \<open>
  A bounding box and a clip are both \<open>{ x, y, width, height }\<close>, in pixels; the fields
  \<open>x\<close> and \<open>y\<close> are called \<open>xpos\<close> and \<open>ypos\<close> here. Pixels are real numbers: the
  rounding of floating-point arithmetic is not modelled.
\<close>

record rect =
  xpos :: real
  ypos :: real
  width :: real
  height :: real

text \<open>
  The calls into the browser engine. Each call of the handler is one event of a trace,
  with \<open>True\<close> when it returned and \<open>False\<close> when it threw.
\<close>

datatype op =
    RequirePuppeteer
  | LaunchLocal
  | ExecutablePath
  | LaunchChromium
  | NewPage
  | SetTimeouts
  | SetUserAgent
  | SetRequestInterception
  | Goto string
  | SetCookie "cookie list"
  | AddStyleTag
  | WaitForTimeout
  | Query
  | BoundingBox
  | Screenshot "rect option"
  | Close

type_synonym trace = "(op \<times> bool) list"

text \<open>
  The selector of line 121 is a list of five selectors, separated by commas:
  \<open>article\<close>, \<open>#m_story_permalink_view\<close>, \<open>.userContentWrapper\<close>, \<open>[data-ft]\<close> and
  \<open>[role="main"]\<close>. An element of the rendered page is what the detection reads of it:
  which of the five it matches, and what its \<open>boundingBox()\<close> returns (\<open>None\<close> for \<open>null\<close>).
\<close>

datatype selector = Article | StoryPermalinkView | UserContentWrapper | DataFt | RoleMain

definition post_selectors :: "selector list" where
  "post_selectors = [Article, StoryPermalinkView, UserContentWrapper, DataFt, RoleMain]"

record element =
  matched :: "selector list"
  boundingBox :: "rect option"

text \<open>
  \<open>page.$(list)\<close> is \<open>document.querySelector(list)\<close>: the first element of the document,
  in document order, that matches any selector of the list.
\<close>

definition querySelector :: "selector list \<Rightarrow> element list \<Rightarrow> element option" where
  "querySelector sels els = find (\<lambda>e. list_ex (\<lambda>s. s \<in> set (matched e)) sels) els"

text \<open>
  The world outside: which call throws at which moment (the moment is the number of calls
  made before), whether the process runs on Lambda, the elements of the rendered page in
  document order, and the base64 text of the screenshot.
\<close>

record world =
  throws :: "nat \<Rightarrow> op \<Rightarrow> bool"
  on_lambda :: bool
  document :: "element list"
  screenshot_data :: string

definition call :: "world \<Rightarrow> op \<Rightarrow> trace \<Rightarrow> bool \<times> trace" where
  "call w f tr = (let ok = \<not> throws w (length tr) f in (ok, tr @ [(f, ok)]))"

text \<open>A run of calls that stops at the first one that throws.\<close>

fun run_ops :: "world \<Rightarrow> op list \<Rightarrow> trace \<Rightarrow> bool \<times> trace" where
  "run_ops w [] tr = (True, tr)"
| "run_ops w (f # fs) tr =
     (case call w f tr of (ok, t) \<Rightarrow> if ok then run_ops w fs t else (False, t))"

text \<open>\<open>try { ... } catch (_) {}\<close> around such a run.\<close>

definition attempt :: "world \<Rightarrow> op list \<Rightarrow> trace \<Rightarrow> trace" where
  "attempt w fs tr = snd (run_ops w fs tr)"

text \<open>
  The engine selection (lines 49 to 72): the local engine off Lambda, and the bundled one
  when that throws or on Lambda. The result says whether \<open>browser\<close> was assigned.
\<close>

definition launch :: "world \<Rightarrow> trace \<Rightarrow> bool \<times> trace" where
  "launch w tr =
     (case (if on_lambda w then (False, tr) else run_ops w [RequirePuppeteer, LaunchLocal] tr) of
        (local, t) \<Rightarrow>
          if local then (True, t) else run_ops w [ExecutablePath, LaunchChromium] t)"

text \<open>The clip of a bounding box (lines 124 to 126).\<close>

definition clip_of :: "rect option \<Rightarrow> rect option" where
  "clip_of box =
     (case box of
        None \<Rightarrow> None
      | Some b \<Rightarrow>
          if width b > 0 \<and> height b > 0
          then Some \<lparr>xpos = max 0 (xpos b - 8), ypos = max 0 (ypos b - 8),
                      width = width b + 16, height = height b + 16\<rparr>
          else None)"

text \<open>The region detection (lines 119 to 128), inside its own \<open>try\<close> with an empty \<open>catch\<close>.\<close>

definition detect :: "world \<Rightarrow> trace \<Rightarrow> rect option \<times> trace" where
  "detect w tr =
     (case call w Query tr of
        (ok, t) \<Rightarrow>
          if \<not> ok then (None, t)
          else (case querySelector post_selectors (document w) of
                  None \<Rightarrow> (None, t)
                | Some candidate \<Rightarrow>
                    (case call w BoundingBox t of
                       (ok', t') \<Rightarrow>
                         if \<not> ok' then (None, t') else (clip_of (boundingBox candidate), t'))))"

datatype reply =
    Preflight
  | MethodNotAllowed
  | BadRequest
  | Captured string string
  | Failed

text \<open>
  The \<open>catch\<close> of the pipeline (line 140): a close is attempted when \<open>browser\<close> is
  assigned, and whatever it throws is dropped.
\<close>

definition on_error :: "world \<Rightarrow> bool \<Rightarrow> trace \<Rightarrow> reply \<times> trace" where
  "on_error w browser tr = (Failed, if browser then snd (call w Close tr) else tr)"

text \<open>
  The pipeline (lines 45 to 146) for the parsed cookies and the normalized address, from
  its end to its start. Every exception outside the inner \<open>try\<close> blocks goes to the \<open>catch\<close>
  of line 139. First the screenshot and the close of the success path (lines 130 to 138).
\<close>

definition capture :: "world \<Rightarrow> string \<Rightarrow> rect option \<Rightarrow> trace \<Rightarrow> reply \<times> trace" where
  "capture w url clip tr =
     (case call w (Screenshot clip) tr of
        (ok, t) \<Rightarrow>
          if \<not> ok then on_error w True t
          else (case call w Close t of
                  (ok', t') \<Rightarrow>
                    if \<not> ok' then on_error w True t'
                    else (Captured (''data:image/jpeg;base64,'' @ screenshot_data w) url, t')))"

text \<open>Navigation, style injection and settle delay, then detection and capture (lines 104 to 130).\<close>

definition navigate :: "world \<Rightarrow> string \<Rightarrow> trace \<Rightarrow> reply \<times> trace" where
  "navigate w url tr =
     (case run_ops w [Goto url, AddStyleTag, WaitForTimeout] tr of
        (ok, t) \<Rightarrow>
          if \<not> ok then on_error w True t
          else (case detect w t of (clip, t') \<Rightarrow> capture w url clip t'))"

text \<open>
  The page and its configuration, the request interception and the cookies, each of the
  last two in a \<open>try\<close> with an empty \<open>catch\<close> (lines 74 to 101).
\<close>

definition prepare :: "world \<Rightarrow> cookie list \<Rightarrow> string \<Rightarrow> trace \<Rightarrow> reply \<times> trace" where
  "prepare w cookies url tr =
     (case run_ops w [NewPage, SetTimeouts, SetUserAgent] tr of
        (ok, t) \<Rightarrow>
          if \<not> ok then on_error w True t
          else
            let t' = attempt w [SetRequestInterception] t;
                t'' = (if cookies \<noteq> []
                       then attempt w [Goto ''https://mbasic.facebook.com/'', SetCookie cookies] t'
                       else t')
            in navigate w url t'')"

definition render :: "world \<Rightarrow> cookie list \<Rightarrow> string \<Rightarrow> reply \<times> trace" where
  "render w cookies url =
     (case launch w [] of
        (browser, t) \<Rightarrow>
          if \<not> browser then on_error w False t else prepare w cookies url t)"

text \<open>The handler of \<open>screenshot-post\<close>.\<close>

definition screenshot_post ::
  "platform \<Rightarrow> world \<Rightarrow> string \<Rightarrow> string \<Rightarrow> string \<Rightarrow> string option \<Rightarrow> reply \<times> trace" where
  "screenshot_post P w env_json env_header httpMethod event_body =
     (if httpMethod = ''OPTIONS'' then (Preflight, [])
      else if httpMethod \<noteq> ''POST'' then (MethodNotAllowed, [])
      else (case request_url P event_body of
              Inl e \<Rightarrow> (BadRequest, [])
            | Inr url \<Rightarrow>
                render w (parseCookies P (getCookieInput P env_json env_header event_body)) url))"

text \<open>
  A session is acquired by a launch that returns, and the box grown by eight pixels on
  every side.
\<close>

definition is_launch :: "op \<times> bool \<Rightarrow> bool" where
  "is_launch e \<longleftrightarrow> e = (LaunchLocal, True) \<or> e = (LaunchChromium, True)"

text \<open>
  The other reading of the selector list, as an order of preference: the first selector
  that matches anything, and the first element that it matches.
\<close>

fun by_selector_order :: "selector list \<Rightarrow> element list \<Rightarrow> element option" where
  "by_selector_order [] els = None"
| "by_selector_order (s # ss) els =
     (case find (\<lambda>e. s \<in> set (matched e)) els of
        Some e \<Rightarrow> Some e
      | None \<Rightarrow> by_selector_order ss els)"

definition acquired :: "trace \<Rightarrow> bool" where
  "acquired tr = list_ex is_launch tr"

definition expand8 :: "rect \<Rightarrow> rect" where
  "expand8 b = \<lparr>xpos = xpos b - 8, ypos = ypos b - 8, width = width b + 16, height = height b + 16\<rparr>"

section \<open>fb-scrape: the static fetcher\<close>

text \<open>
  What \<open>safeFetch\<close> returns when it does not return \<open>null\<close>: \<open>{ ok, status, url, text }\<close>.
\<close>

record response =
  res_ok :: bool
  res_status :: nat
  res_url :: string
  res_text :: string

text \<open>
  The network is a parameter: the result of the \<open>n\<close>-th call of \<open>safeFetch\<close> for an address
  and its request headers, \<open>None\<close> for \<open>null\<close> (a network error, the timeout of eight
  seconds, or any other exception).
\<close>

type_synonym fetcher = "nat \<Rightarrow> string \<Rightarrow> (string \<times> string) list \<Rightarrow> response option"

definition buildHeaders :: "string \<Rightarrow> (string \<times> string) list" where
  "buildHeaders uaVariant =
     [(''User-Agent'',
         if uaVariant = ''fb''
         then ''facebookexternalhit/1.1 (+http://www.facebook.com/externalhit_uatext/)''
         else ''Mozilla/5.0 (Windows NT 10.0; Win64; x64) AppleWebKit/537.36 (KHTML, like Gecko) Chrome/124.0 Safari/537.36''),
      (''Accept'', ''text/html,application/xhtml+xml,application/xml;q=0.9,*/*;q=0.8''),
      (''Accept-Language'', ''en-US,en;q=0.9''),
      (''Cache-Control'', ''no-cache'')]"

text \<open>
  The three signatures of a login interstitial:
  \<open>/See\s+posts,\s+photos\s+and\s+more\s+on\s+Facebook/i\<close>,
  \<open>/Log\s*in\s*or\s*sign\s*up\s*to\s*view/i\<close> and \<open>/Log\s*into\s*Facebook/i\<close>.
\<close>

definition rx_see_posts :: rx where
  "rx_see_posts =
     seqs [Lit ''See'', Rep is_ws 1, Lit ''posts,'', Rep is_ws 1, Lit ''photos'', Rep is_ws 1,
           Lit ''and'', Rep is_ws 1, Lit ''more'', Rep is_ws 1, Lit ''on'', Rep is_ws 1,
           Lit ''Facebook'']"

definition rx_log_in_or_sign_up :: rx where
  "rx_log_in_or_sign_up =
     seqs [Lit ''Log'', Rep is_ws 0, Lit ''in'', Rep is_ws 0, Lit ''or'', Rep is_ws 0,
           Lit ''sign'', Rep is_ws 0, Lit ''up'', Rep is_ws 0, Lit ''to'', Rep is_ws 0,
           Lit ''view'']"

definition rx_log_into :: rx where
  "rx_log_into = seqs [Lit ''Log'', Rep is_ws 0, Lit ''into'', Rep is_ws 0, Lit ''Facebook'']"

definition isFacebookLoginInterstitial :: "string \<Rightarrow> bool" where
  "isFacebookLoginInterstitial html =
     (if html = [] then False
      else if rx_test True rx_see_posts html then True
      else if rx_test True rx_log_in_or_sign_up html then True
      else if rx_test True rx_log_into html then True
      else False)"

text \<open>
  The two loops of the handler (lines 108 to 121). The state is \<open>tried\<close> and, once an
  attempt qualifies, \<open>html\<close> and \<open>finalUrl\<close>; \<open>break outer\<close> leaves both loops.
\<close>

fun ua_loop ::
  "fetcher \<Rightarrow> string \<Rightarrow> string list \<Rightarrow> string list \<Rightarrow> string list \<times> (string \<times> string) option" where
  "ua_loop safeFetch candidate [] tried = (tried, None)"
| "ua_loop safeFetch candidate (ua # uas) tried =
     (let tried' = tried @ [candidate @ '' [ua:'' @ ua @ '']''] in
      case safeFetch (length tried) candidate (buildHeaders ua) of
        None \<Rightarrow> ua_loop safeFetch candidate uas tried'
      | Some res \<Rightarrow>
          if res_ok res \<and> res_text res \<noteq> []
          then (if \<not> isFacebookLoginInterstitial (res_text res)
                then (tried', Some (res_text res, str_or (res_url res) candidate))
                else ua_loop safeFetch candidate uas tried')
          else ua_loop safeFetch candidate uas tried')"

fun candidate_loop ::
  "fetcher \<Rightarrow> string list \<Rightarrow> string list \<Rightarrow> string list \<Rightarrow> string list \<times> (string \<times> string) option" where
  "candidate_loop safeFetch [] userAgents tried = (tried, None)"
| "candidate_loop safeFetch (candidate # candidates) userAgents tried =
     (case ua_loop safeFetch candidate userAgents tried of
        (tried', Some found) \<Rightarrow> (tried', Some found)
      | (tried', None) \<Rightarrow> candidate_loop safeFetch candidates userAgents tried')"

text \<open>
  The attempts in row-major order, the label of an attempt in \<open>tried\<close>, the test that
  ends the loops, and the answer to the \<open>i\<close>-th attempt when \<open>n\<close> attempts came before.
\<close>

definition attempts :: "string list \<Rightarrow> string list \<Rightarrow> (string \<times> string) list" where
  "attempts candidates userAgents = concat (map (\<lambda>c. map (Pair c) userAgents) candidates)"

definition label :: "string \<times> string \<Rightarrow> string" where
  "label p = fst p @ '' [ua:'' @ snd p @ '']''"

definition qualifies :: "response option \<Rightarrow> bool" where
  "qualifies res =
     (case res of
        None \<Rightarrow> False
      | Some r \<Rightarrow> res_ok r \<and> res_text r \<noteq> [] \<and> \<not> isFacebookLoginInterstitial (res_text r))"

definition answer :: "fetcher \<Rightarrow> nat \<Rightarrow> (string \<times> string) list \<Rightarrow> nat \<Rightarrow> response option" where
  "answer safeFetch n ps i = safeFetch (n + i) (fst (ps ! i)) (buildHeaders (snd (ps ! i)))"

text \<open>One loop over a list of attempts, with the same step as the two loops.\<close>

fun scan ::
  "fetcher \<Rightarrow> (string \<times> string) list \<Rightarrow> string list \<Rightarrow> string list \<times> (string \<times> string) option" where
  "scan safeFetch [] tried = (tried, None)"
| "scan safeFetch (p # ps) tried =
     (let res = safeFetch (length tried) (fst p) (buildHeaders (snd p)) in
      if qualifies res
      then (tried @ [label p], Some (res_text (the res), str_or (res_url (the res)) (fst p)))
      else scan safeFetch ps (tried @ [label p]))"

section \<open>fb-scrape: the metadata extractor\<close>

text \<open>
  The pattern of a meta tag,
  \<open>/<meta\s+ATTR=["']KEY["']\s+content=["']([^"']*)["'][^>]*>/i\<close>, and of the title,
  \<open>/<title>([^<]*)<\/title>/i\<close>.
\<close>

definition quote :: "char \<Rightarrow> bool" where
  "quote c = (c = CHR 0x22 \<or> c = CHR 0x27)"

definition meta_rx :: "string \<Rightarrow> string \<Rightarrow> rx" where
  "meta_rx attr key =
     seqs [Lit ''<meta'', Rep is_ws 1, Lit (attr @ ''=''), Cls quote, Lit key, Cls quote,
           Rep is_ws 1, Lit ''content='', Cls quote, Grp (Rep (\<lambda>c. \<not> quote c) 0), Cls quote,
           Rep (\<lambda>c. c \<noteq> CHR ''>'') 0, Lit ''>'']"

definition title_rx :: rx where
  "title_rx = seqs [Lit ''<title>'', Grp (Rep (\<lambda>c. c \<noteq> CHR ''<'') 0), Lit ''</title>'']"

definition decodeHtml :: "string \<Rightarrow> string" where
  "decodeHtml str =
     replace_all ''&#39;'' [CHR 0x27]
       (replace_all ''&quot;'' [CHR 0x22]
         (replace_all ''&gt;'' ''>''
           (replace_all ''&lt;'' ''<''
             (replace_all ''&amp;'' ''&'' str))))"

text \<open>
  \<open>pick\<close>: the first match of the pattern in \<open>html\<close>, its group 1 decoded. (Group 1 takes
  part in every match of the patterns above.)
\<close>

definition pick :: "string \<Rightarrow> rx \<Rightarrow> string" where
  "pick html re =
     (case search True re 0 html of
        None \<Rightarrow> []
      | Some (_, (_, _, cap)) \<Rightarrow> decodeHtml (case cap of None \<Rightarrow> [] | Some t \<Rightarrow> t))"

definition extractTitle :: "string \<Rightarrow> string" where
  "extractTitle html = pick html title_rx"

text \<open>
  \<open>unwrapSafeImage\<close>. A \<open>URIError\<close> of \<open>decodeURIComponent\<close> is thrown again in the inner
  \<open>catch\<close> and ends in the outer one, which returns the argument.
\<close>

definition unwrapSafeImage :: "platform \<Rightarrow> string \<Rightarrow> string" where
  "unwrapSafeImage P imageUrl =
     (case URL_parse P imageUrl of
        None \<Rightarrow> imageUrl
      | Some u \<Rightarrow>
          if str_includes (url_pathname u) ''/safe_image.php''
          then (case searchParams_get P u ''url'' of
                  None \<Rightarrow> imageUrl
                | Some original \<Rightarrow>
                    if original = [] then imageUrl
                    else (case decodeURIComponent P original of
                            None \<Rightarrow> imageUrl
                          | Some d \<Rightarrow> (case URL_parse P d of None \<Rightarrow> d | Some v \<Rightarrow> url_href v)))
          else imageUrl)"

text \<open>
  The patterns of \<open>extractImageFallback\<close>:
  \<open>/<img[^>]+(?:data-src|src)=["']([^"']+)["'][^>]*>/ig\<close>, \<open>/pixel|analytics|spacer/i\<close> and
  \<open>/\.svg($|\?)/i\<close>.
\<close>

definition img_rx :: rx where
  "img_rx =
     seqs [Lit ''<img'', Rep (\<lambda>c. c \<noteq> CHR ''>'') 1, Alt (Lit ''data-src'') (Lit ''src''), Lit ''='',
           Cls quote, Grp (Rep (\<lambda>c. \<not> quote c) 1), Cls quote, Rep (\<lambda>c. c \<noteq> CHR ''>'') 0,
           Lit ''>'']"

definition tracking_rx :: rx where
  "tracking_rx = Alt (Lit ''pixel'') (Alt (Lit ''analytics'') (Lit ''spacer''))"

definition svg_rx :: rx where
  "svg_rx = Seq (Lit ''.svg'') (Alt Eos (Lit ''?''))"

text \<open>
  The body of the first loop of \<open>extractImageFallback\<close> for one capture: \<open>None\<close> where
  the code says \<open>continue\<close>, and the absolute address that is pushed to \<open>candidates\<close>
  otherwise.
\<close>

definition image_candidate :: "platform \<Rightarrow> string \<Rightarrow> string option \<Rightarrow> string option" where
  "image_candidate P baseUrl cap =
     (case cap of
        None \<Rightarrow> None
      | Some src \<Rightarrow>
          if src = [] then None
          else (case URL_resolve P src baseUrl of
                  None \<Rightarrow> None
                | Some u \<Rightarrow>
                    let abs' = url_href u in
                    if abs' = [] then None
                    else if startsWith abs' ''data:'' then None
                    else if rx_test True tracking_rx abs' then None
                    else if rx_test True svg_rx abs' then None
                    else Some abs'))"

text \<open>The loop itself, over the captures of the matches.\<close>

fun collect_images :: "platform \<Rightarrow> string \<Rightarrow> string option list \<Rightarrow> string list \<Rightarrow> string list" where
  "collect_images P baseUrl [] candidates = candidates"
| "collect_images P baseUrl (cap # caps) candidates =
     (case image_candidate P baseUrl cap of
        None \<Rightarrow> collect_images P baseUrl caps candidates
      | Some abs' \<Rightarrow> collect_images P baseUrl caps (candidates @ [abs']))"

text \<open>The second loop, which returns at the first candidate that contains \<open>/safe_image.php\<close>.\<close>

fun first_safe_image :: "platform \<Rightarrow> string list \<Rightarrow> string option" where
  "first_safe_image P [] = None"
| "first_safe_image P (c # cs) =
     (if str_includes c ''/safe_image.php'' then Some (unwrapSafeImage P c)
      else first_safe_image P cs)"

definition extractImageFallback :: "platform \<Rightarrow> string \<Rightarrow> string \<Rightarrow> string" where
  "extractImageFallback P html baseUrl =
     (let candidates = collect_images P baseUrl (exec_all True img_rx 0 0 html) [] in
      case first_safe_image P candidates of
        Some r \<Rightarrow> r
      | None \<Rightarrow> (case candidates of [] \<Rightarrow> [] | c # _ \<Rightarrow> str_or c []))"

record metadata =
  meta_name :: string
  caption :: string
  image :: string
  ogTitle :: string
  ogDesc :: string
  rawTitle :: string

definition extractMeta :: "platform \<Rightarrow> string \<Rightarrow> string \<Rightarrow> metadata" where
  "extractMeta P html baseUrl =
     (let ogTitle = pick html (meta_rx ''property'' ''og:title'');
          ogDesc = pick html (meta_rx ''property'' ''og:description'');
          metaDesc = pick html (meta_rx ''name'' ''description'');
          ogImage = pick html (meta_rx ''property'' ''og:image'');
          ogImageSecure = pick html (meta_rx ''property'' ''og:image:secure_url'');
          ogImageUrl = pick html (meta_rx ''property'' ''og:image:url'');
          ogSite = pick html (meta_rx ''property'' ''og:site_name'');
          twDesc = pick html (meta_rx ''name'' ''twitter:description'');
          titleTag = extractTitle html;
          image0 = str_or ogImage (str_or ogImageSecure ogImageUrl);
          image1 = (if image0 \<noteq> []
                    then unwrapSafeImage P
                           (case URL_resolve P image0 baseUrl of
                              None \<Rightarrow> image0
                            | Some u \<Rightarrow> url_href u)
                    else image0);
          image2 = (if image1 = [] then extractImageFallback P html baseUrl else image1)
      in \<lparr>meta_name = str_or ogSite (str_or ogTitle (str_or titleTag [])),
          caption = str_or ogDesc (str_or twDesc (str_or metaDesc [])),
          image = image2,
          ogTitle = ogTitle,
          ogDesc = ogDesc,
          rawTitle = titleTag\<rparr>)"

text \<open>
  The handler of \<open>fb-scrape\<close>. Every reply has status 200 apart from the two that answer
  the method; an exception anywhere in the \<open>try\<close> block gives the reply \<open>exception\<close>. The
  reply of a success carries the input address, the final address, the metadata with the
  name \<open>unknown\<close> when there is none, and the attempts.
\<close>

datatype scrape_reply =
    ScrapePreflight
  | ScrapeMethodNotAllowed
  | MissingUrl
  | FetchFailed "string list"
  | Scraped string string metadata "string list"
  | ScrapeException

definition fb_scrape :: "platform \<Rightarrow> fetcher \<Rightarrow> string \<Rightarrow> string option \<Rightarrow> scrape_reply" where
  "fb_scrape P safeFetch httpMethod event_body =
     (if httpMethod = ''OPTIONS'' then ScrapePreflight
      else if httpMethod \<noteq> ''POST'' then ScrapeMethodNotAllowed
      else (case request_body P event_body of
        Inl e \<Rightarrow> ScrapeException
      | Inr body \<Rightarrow>
          (case js_get body ''url'' of
             Inl e \<Rightarrow> ScrapeException
           | Inr v \<Rightarrow>
               (case v of
                  Some (JStr url) \<Rightarrow>
                    if url = [] then MissingUrl
                    else (case buildCandidateUrls P url of
                      Inl e \<Rightarrow> ScrapeException
                    | Inr candidates \<Rightarrow>
                        (case candidate_loop safeFetch candidates [''chrome'', ''fb''] [] of
                           (tried, None) \<Rightarrow> FetchFailed tried
                         | (tried, Some (html, finalUrl)) \<Rightarrow>
                             let meta = extractMeta P html finalUrl in
                             Scraped url finalUrl
                               (meta\<lparr>meta_name := str_or (meta_name meta) ''unknown''\<rparr>) tried))
                | _ \<Rightarrow> MissingUrl))))"

text \<open>The first string of a list that is not empty, and the empty string when there is none.\<close>

definition first_nonempty :: "string list \<Rightarrow> string" where
  "first_nonempty xs = (case filter (\<lambda>x. x \<noteq> []) xs of [] \<Rightarrow> [] | x # _ \<Rightarrow> x)"

text \<open>
  What unescaping the five entities means: one pass from left to right, in which every
  entity gives its character and everything else stays.
\<close>

function unescape_entities :: "string \<Rightarrow> string" where
  "unescape_entities [] = []"
| "unescape_entities (x # xs) =
     (if prefix ''&amp;'' (x # xs) then CHR ''&'' # unescape_entities (drop 4 xs)
      else if prefix ''&lt;'' (x # xs) then CHR ''<'' # unescape_entities (drop 3 xs)
      else if prefix ''&gt;'' (x # xs) then CHR ''>'' # unescape_entities (drop 3 xs)
      else if prefix ''&quot;'' (x # xs) then CHR 0x22 # unescape_entities (drop 5 xs)
      else if prefix ''&#39;'' (x # xs) then CHR 0x27 # unescape_entities (drop 4 xs)
      else x # unescape_entities xs)"
  by pat_completeness auto
termination
  by (relation "measure length") auto

text \<open>
  The image candidates of the fallback, in the order of the document, and the fact about
  the runtime that the decoding of a string that is not empty is not empty.
\<close>

definition meta_image :: "string \<Rightarrow> string" where
  "meta_image html =
     first_nonempty [pick html (meta_rx ''property'' ''og:image''),
                     pick html (meta_rx ''property'' ''og:image:secure_url''),
                     pick html (meta_rx ''property'' ''og:image:url'')]"



section \<open>Sample inputs\<close>

text \<open>
  A page whose main region comes first in the document and holds the article, and a world
  with that page in which no call throws, off Lambda.
\<close>

definition main_region :: element where
  "main_region =
     \<lparr>matched = [RoleMain],
      boundingBox = Some \<lparr>xpos = 0, ypos = 0, width = 640, height = 2000\<rparr>\<rparr>"

definition article_element :: element where
  "article_element =
     \<lparr>matched = [Article],
      boundingBox = Some \<lparr>xpos = 20, ypos = 300, width = 600, height = 400\<rparr>\<rparr>"

definition sample_world :: world where
  "sample_world =
     \<lparr>throws = (\<lambda>n f. False), on_lambda = False,
      document = [main_region, article_element],
      screenshot_data = ''QUJD''\<rparr>"

text \<open>
  Three answers of the network: a login wall with status 200, a page, and a success with
  an empty body. The sample network answers the first attempt with the login wall, fails
  the second, and answers every later one with the page.
\<close>

definition login_wall :: response where
  "login_wall =
     \<lparr>res_ok = True, res_status = 200, res_url = ''https://www.facebook.com/login/'',
      res_text = ''<h2>Log into Facebook</h2>''\<rparr>"

definition plain_page :: response where
  "plain_page = \<lparr>res_ok = True, res_status = 200, res_url = [], res_text = ''<title>A</title>''\<rparr>"

definition empty_ok :: response where
  "empty_ok = \<lparr>res_ok = True, res_status = 200, res_url = [], res_text = []\<rparr>"

definition sample_fetch :: fetcher where
  "sample_fetch n c h = (if n = 0 then Some login_wall else if n = 1 then None else Some plain_page)"

text \<open>The record that the header branch builds for \<open>a=b\<close>.\<close>

definition header_ab :: cookie where
  "header_ab =
     \<lparr>name = ''a'', value' = ''b'', domain = JStr ''.facebook.com'', path = JStr ''/'',
      httpOnly = False, secure = True, sameSite = None, expires = None\<rparr>"

text \<open>A runtime whose URL parser knows a few sample addresses, for concrete evaluations.\<close>

definition web_url :: "string \<Rightarrow> string \<Rightarrow> string \<Rightarrow> string \<Rightarrow> string \<Rightarrow> string option \<Rightarrow> url" where
  "web_url sch usr pw h p q =
     \<lparr>scheme = sch,
      loc = ListPath (Some \<lparr>username = usr, password = pw, hostname = h, port = []\<rparr>) p,
      query = q, fragment = None\<rparr>"

definition sample_parse :: "string \<Rightarrow> url option" where
  "sample_parse s =
     map_of
       [(''https://notfacebook.com/p'', web_url ''https'' [] [] ''notfacebook.com'' ''/p'' None),
        (''https://www.facebook.com/somepage/posts/123'',
           web_url ''https'' [] [] ''www.facebook.com'' ''/somepage/posts/123'' None),
        (''https://m.facebook.com/story.php?id=1'',
           web_url ''https'' [] [] ''m.facebook.com'' ''/story.php'' (Some ''id=1'')),
        (''https://user:pw@www.facebook.com/x'',
           web_url ''https'' ''user'' ''pw'' ''www.facebook.com'' ''/x'' None),
        (''https://example.org/a'', web_url ''https'' [] [] ''example.org'' ''/a'' None),
        (''https://example.org/a.jpg'', web_url ''https'' [] [] ''example.org'' ''/a.jpg'' None),
        (''https://example.org/safe_image.php'',
           web_url ''https'' [] [] ''example.org'' ''/safe_image.php'' None)]
       s"

text \<open>
  Addresses of a page at \<open>https://example.org/a\<close>, resolved against it, and one that no
  base makes a URL.
\<close>

definition sample_resolve :: "string \<Rightarrow> string \<Rightarrow> url option" where
  "sample_resolve s base =
     (if base = ''https://example.org/a''
      then map_of
        [(''/a.jpg'', web_url ''https'' [] [] ''example.org'' ''/a.jpg'' None),
         (''/safe_image.php'', web_url ''https'' [] [] ''example.org'' ''/safe_image.php'' None)]
        s
      else None)"

definition sample_json :: "string \<Rightarrow> json option" where
  "sample_json s =
     map_of
       [(''{\"url\":\"not a url\"}'', JObj [(''url'', JStr ''not a url'')]),
        (''{\"url\":\"https://m.facebook.com/story.php?id=1\"}'',
           JObj [(''url'', JStr ''https://m.facebook.com/story.php?id=1'')]),
        (''[{\"name\":\"a\",\"value\":\"b\"}]'',
           JArr [JObj [(''name'', JStr ''a''), (''value'', JStr ''b'')]])]
       s"

definition sample_platform :: platform where
  "sample_platform =
     \<lparr>URL_parse = sample_parse,
      URL_resolve = sample_resolve,
      urlencoded = (\<lambda>q. []),
      decodeURIComponent = Some,
      JSON_parse = sample_json\<rparr>"

section \<open>Facts about the matcher\<close>

lemma search_Some_iff:
  "search ci r i s \<noteq> None \<longleftrightarrow> (\<exists>k\<le>length s. m ci r (i + k, drop k s, None) \<noteq> [])"
proof (induction s arbitrary: i)
  case Nil
  show ?case by (simp split: list.splits)
next
  case (Cons x xs)
  show ?case
  proof (cases "m ci r (i, x # xs, None)")
    case Nil
    have "(\<exists>k\<le>length (x # xs). m ci r (i + k, drop k (x # xs), None) \<noteq> [])
          \<longleftrightarrow> (\<exists>k\<le>length xs. m ci r (Suc i + k, drop k xs, None) \<noteq> [])"
    proof
      assume "\<exists>k\<le>length (x # xs). m ci r (i + k, drop k (x # xs), None) \<noteq> []"
      then obtain k where k: "k \<le> length (x # xs)" "m ci r (i + k, drop k (x # xs), None) \<noteq> []"
        by blast
      with Nil obtain k' where "k = Suc k'" by (cases k) auto
      with k show "\<exists>k\<le>length xs. m ci r (Suc i + k, drop k xs, None) \<noteq> []"
        by auto
    next
      assume "\<exists>k\<le>length xs. m ci r (Suc i + k, drop k xs, None) \<noteq> []"
      then obtain k where "k \<le> length xs" "m ci r (Suc i + k, drop k xs, None) \<noteq> []"
        by blast
      then have "Suc k \<le> length (x # xs) \<and> m ci r (i + Suc k, drop (Suc k) (x # xs), None) \<noteq> []"
        by simp
      then show "\<exists>k\<le>length (x # xs). m ci r (i + k, drop k (x # xs), None) \<noteq> []"
        by blast
    qed
    with Nil Cons.IH [of "Suc i"] show ?thesis by simp
  next
    case (Cons st sts)
    then have "m ci r (i + 0, drop 0 (x # xs), None) \<noteq> []" by simp
    then have "\<exists>k\<le>length (x # xs). m ci r (i + k, drop k (x # xs), None) \<noteq> []"
      by (metis le0)
    with Cons show ?thesis by simp
  qed
qed

lemma lit_prefix_iff:
  "lit_prefix True l s \<longleftrightarrow> prefix (map lower l) (map lower s)"
proof -
  have "list_all2 (eqc True) l t \<longleftrightarrow> map lower l = map lower t" for t
    by (induction l arbitrary: t) (auto simp: eqc_def list_all2_Cons1)
  then have "lit_prefix True l s \<longleftrightarrow>
      length l \<le> length s \<and> map lower l = take (length l) (map lower s)"
    by (simp add: lit_prefix_def take_map)
  also have "\<dots> \<longleftrightarrow> prefix (map lower l) (map lower s)"
    by (metis append_eq_conv_conj length_map prefix_def prefix_length_le)
  finally show ?thesis .
qed

lemma m_lit_eos:
  "m True (Seq (Lit l) Eos) (i, s, None) \<noteq> [] \<longleftrightarrow> map lower s = map lower l"
proof -
  have "m True (Seq (Lit l) Eos) (i, s, None) \<noteq> []
        \<longleftrightarrow> lit_prefix True l s \<and> drop (length l) s = []"
    by simp
  also have "\<dots> \<longleftrightarrow> prefix (map lower l) (map lower s) \<and> length s \<le> length l"
    by (simp add: lit_prefix_iff)
  also have "\<dots> \<longleftrightarrow> map lower s = map lower l"
  proof
    assume a: "prefix (map lower l) (map lower s) \<and> length s \<le> length l"
    then obtain zs where zs: "map lower s = map lower l @ zs"
      by (auto simp: prefix_def)
    then have "length s = length l + length zs"
      by (metis length_append length_map)
    with a have "zs = []" by simp
    with zs show "map lower s = map lower l" by simp
  next
    assume e: "map lower s = map lower l"
    then have "length s = length l" by (metis length_map)
    with e show "prefix (map lower l) (map lower s) \<and> length s \<le> length l" by simp
  qed
  finally show ?thesis .
qed

lemma rx_test_lit_eos:
  "rx_test True (Seq (Lit l) Eos) s \<longleftrightarrow> suffix (map lower l) (map lower s)"
proof -
  have "rx_test True (Seq (Lit l) Eos) s
        \<longleftrightarrow> (\<exists>k\<le>length s. map lower (drop k s) = map lower l)"
    unfolding rx_test_def search_Some_iff by (simp only: m_lit_eos add_0)
  also have "\<dots> \<longleftrightarrow> suffix (map lower l) (map lower s)"
  proof
    assume "\<exists>k\<le>length s. map lower (drop k s) = map lower l"
    then obtain k where "map lower (drop k s) = map lower l" by blast
    then have "map lower s = map lower (take k s) @ map lower l"
      by (metis append_take_drop_id map_append)
    then show "suffix (map lower l) (map lower s)" by (simp add: suffix_def)
  next
    assume "suffix (map lower l) (map lower s)"
    then obtain zs where zs: "map lower s = zs @ map lower l" by (auto simp: suffix_def)
    then have "length zs \<le> length s"
      by (metis length_append length_map le_add1)
    moreover from zs have "map lower (drop (length zs) s) = map lower l"
      by (metis append_eq_conv_conj drop_map)
    ultimately show "\<exists>k\<le>length s. map lower (drop k s) = map lower l" by blast
  qed
  finally show ?thesis .
qed

section \<open>The URL normalizer rewrites every host name that ends in facebook.com\<close>

lemma hostname_set_hostname:
  "url_hostname u \<noteq> [] \<Longrightarrow> url_hostname (set_hostname u h) = h"
  by (auto simp: url_hostname_def set_hostname_def split: location.splits option.splits)

text \<open>
  C10. Whenever the host name of the parsed input ends in the letters \<open>facebook.com\<close>, in
  any case, \<open>normalizeFacebookUrl\<close> returns the address with the host name replaced by
  \<open>mbasic.facebook.com\<close>. The test is a suffix test on the string, so it holds of a host
  such as \<open>notfacebook.com\<close>, which is neither \<open>facebook.com\<close> nor one of its subdomains.
\<close>

theorem normalizeFacebookUrl_suffix_rewrite:
  assumes "URL_parse P input = Some u"
    and "suffix ''facebook.com'' (map lower (url_hostname u))"
  shows "normalizeFacebookUrl P input = url_href (set_hostname u ''mbasic.facebook.com'')
         \<and> url_hostname (set_hostname u ''mbasic.facebook.com'') = ''mbasic.facebook.com''"
proof -
  have low: "map lower ''facebook.com'' = ''facebook.com''"
    by (simp add: lower_def)
  from assms(2) have t: "rx_test True rx_facebook_com (url_hostname u)"
    by (simp only: rx_facebook_com_def rx_test_lit_eos low)
  from assms(2) have "url_hostname u \<noteq> []"
    by (auto simp: suffix_def)
  then have "url_hostname (set_hostname u ''mbasic.facebook.com'') = ''mbasic.facebook.com''"
    by (rule hostname_set_hostname)
  with t assms(1) show ?thesis
    by (simp add: normalizeFacebookUrl_def)
qed

theorem normalizeFacebookUrl_suffix_rewrite_witness:
  "URL_parse sample_platform ''https://notfacebook.com/p''
     = Some (web_url ''https'' [] [] ''notfacebook.com'' ''/p'' None)
   \<and> url_hostname (web_url ''https'' [] [] ''notfacebook.com'' ''/p'' None) \<noteq> ''facebook.com''
   \<and> \<not> suffix ''.facebook.com'' (url_hostname (web_url ''https'' [] [] ''notfacebook.com'' ''/p'' None))
   \<and> normalizeFacebookUrl sample_platform ''https://notfacebook.com/p''
       = ''https://mbasic.facebook.com/p''"
proof -
  let ?u = "web_url ''https'' [] [] ''notfacebook.com'' ''/p'' None"
  have p: "URL_parse sample_platform ''https://notfacebook.com/p'' = Some ?u"
    by (simp add: sample_platform_def sample_parse_def)
  have h: "url_hostname ?u = ''notfacebook.com''"
    by (simp add: url_hostname_def web_url_def)
  have s: "suffix ''facebook.com'' (map lower (url_hostname ?u))"
    unfolding h by (simp add: lower_def suffix_def)
  have r: "url_href (set_hostname ?u ''mbasic.facebook.com'') = ''https://mbasic.facebook.com/p''"
    by (simp add: url_href_def set_hostname_def web_url_def credentials_def)
  have ns: "\<not> suffix ''.facebook.com'' ''notfacebook.com''"
    by (simp add: suffix_to_prefix)
  from normalizeFacebookUrl_suffix_rewrite [OF p s] p h r ns show ?thesis
    by simp
qed

section \<open>The URL normalizer has no error exit\<close>

lemma search_bos_later: "0 < i \<Longrightarrow> search ci (Seq Bos r) i s = None"
  by (induction s arbitrary: i) auto

lemma lit_prefix_cs: "lit_prefix False l s \<longleftrightarrow> prefix l s"
proof -
  have "list_all2 (eqc False) l t \<longleftrightarrow> l = t" for t
    by (induction l arbitrary: t) (auto simp: eqc_def list_all2_Cons1)
  then have "lit_prefix False l s \<longleftrightarrow> length l \<le> length s \<and> l = take (length l) s"
    by (simp add: lit_prefix_def)
  also have "\<dots> \<longleftrightarrow> prefix l s"
    by (metis append_eq_conv_conj prefix_def prefix_length_le)
  finally show ?thesis .
qed

lemma search_bos_lit:
  "search False (Seq Bos (Lit l)) 0 h =
     (if prefix l h then Some (0, (length l, drop (length l) h, None)) else None)"
  by (cases h) (simp_all add: lit_prefix_cs search_bos_later)

lemma rx_replace1_bos_lit:
  "rx_replace1 False (Seq Bos (Lit l)) [] h = (if prefix l h then drop (length l) h else h)"
  by (simp add: rx_replace1_def search_bos_lit)

lemma rx_replace1_www:
  "rx_replace1 False rx_www [] h = (if prefix ''www.'' h then drop 4 h else h)"
proof -
  have "length ''www.'' = 4" by simp
  then show ?thesis
    unfolding rx_www_def rx_replace1_bos_lit by (simp only:)
qed


lemma facebook_test_iff:
  "rx_test True rx_facebook_com h \<or> rx_test True rx_facebook_com (rx_replace1 False rx_www [] h)
   \<longleftrightarrow> suffix ''facebook.com'' (map lower h)"
proof -
  have low: "map lower ''facebook.com'' = ''facebook.com''"
    by (simp add: lower_def)
  have t: "rx_test True rx_facebook_com x \<longleftrightarrow> suffix ''facebook.com'' (map lower x)" for x
    unfolding rx_facebook_com_def rx_test_lit_eos low ..
  have "suffix (map lower (drop 4 h)) (map lower h)"
    unfolding drop_map [symmetric] by (rule suffix_drop)
  then have d: "suffix ''facebook.com'' (map lower (drop 4 h)) \<Longrightarrow> suffix ''facebook.com'' (map lower h)"
    by (rule suffix_order.trans [rotated])
  show ?thesis
  proof (cases "prefix ''www.'' h")
    case True
    then have "rx_replace1 False rx_www [] h = drop 4 h"
      by (simp only: rx_replace1_www if_True)
    with d show ?thesis unfolding t by auto
  next
    case False
    then have "rx_replace1 False rx_www [] h = h"
      by (simp only: rx_replace1_www if_False)
    then show ?thesis unfolding t by simp
  qed
qed

lemma trim_Nil: "trim [] = []"
  by (simp add: trim_def)

lemma normalizeFacebookUrl_cases:
  "normalizeFacebookUrl P input =
     (case URL_parse P input of
        None \<Rightarrow> input
      | Some u \<Rightarrow> if suffix ''facebook.com'' (map lower (url_hostname u))
                  then url_href (set_hostname u ''mbasic.facebook.com'') else input)"
  unfolding normalizeFacebookUrl_def facebook_test_iff ..

lemma request_url_string:
  assumes "b \<noteq> []" and "JSON_parse P b = Some (JObj kvs)"
    and "map_of kvs ''url'' = Some (JStr t)" and "trim t \<noteq> []"
  shows "request_url P (Some b) = Inr (normalizeFacebookUrl P (trim t))"
proof -
  from assms(4) have "t \<noteq> []"
    using trim_Nil by auto
  then have "truthy (Some (JStr t))"
    by (simp add: truthy_def)
  with assms show ?thesis
    by (simp add: request_url_def request_body_def js_get_def js_prop_def js_or_def)
qed

lemma in_facebook_domain_suffix:
  assumes "in_facebook_domain h"
  shows "suffix ''facebook.com'' (map lower h)"
proof (cases "map lower h = ''facebook.com''")
  case True
  then show ?thesis by simp
next
  case False
  with assms obtain zs where "map lower h = zs @ ''.facebook.com''"
    by (auto simp: in_facebook_domain_def suffix_def)
  then have "map lower h = (zs @ ''.'') @ ''facebook.com''"
    by simp
  then show ?thesis
    by (rule suffixI)
qed

lemma request_url_parser_free:
  "isl (request_url (P\<lparr>URL_parse := q\<rparr>) event_body) = isl (request_url P event_body)"
  by (simp add: request_url_def request_body_def split: option.splits sum.splits)

text \<open>
  C7, as the code has it. The normalizer never fails: an input that the URL parser
  rejects is returned unchanged. An input whose host is in the target domain,
  \<open>facebook.com\<close> or one of its subdomains, is returned with the host name replaced by
  \<open>mbasic.facebook.com\<close>, in one step, and an input whose host name does not end in
  \<open>facebook.com\<close> is returned unchanged. The handler does not reject a request because its
  address does not parse: whether it answers 400 does not depend on the URL parser, and a
  body whose \<open>url\<close> is a string that is not blank always passes, with the normalizer's
  result.
\<close>

theorem normalizer_total:
  "(URL_parse P input = None \<longrightarrow> normalizeFacebookUrl P input = input)
   \<and> (URL_parse P input = Some u \<and> in_facebook_domain (url_hostname u) \<longrightarrow>
        normalizeFacebookUrl P input = url_href (set_hostname u ''mbasic.facebook.com'')
        \<and> url_hostname (set_hostname u ''mbasic.facebook.com'') = ''mbasic.facebook.com'')
   \<and> (URL_parse P input = Some u \<and> \<not> suffix ''facebook.com'' (map lower (url_hostname u)) \<longrightarrow>
        normalizeFacebookUrl P input = input)
   \<and> isl (request_url (P\<lparr>URL_parse := q\<rparr>) event_body) = isl (request_url P event_body)
   \<and> (b \<noteq> [] \<and> JSON_parse P b = Some (JObj kvs) \<and> map_of kvs ''url'' = Some (JStr t)
        \<and> trim t \<noteq> []
      \<longrightarrow> request_url P (Some b) = Inr (normalizeFacebookUrl P (trim t)))"
proof -
  have 1: "URL_parse P input = None \<longrightarrow> normalizeFacebookUrl P input = input"
    by (simp add: normalizeFacebookUrl_cases)
  have 2: "URL_parse P input = Some u \<and> in_facebook_domain (url_hostname u) \<longrightarrow>
        normalizeFacebookUrl P input = url_href (set_hostname u ''mbasic.facebook.com'')
        \<and> url_hostname (set_hostname u ''mbasic.facebook.com'') = ''mbasic.facebook.com''"
  proof (intro impI, elim conjE)
    assume p: "URL_parse P input = Some u" and d: "in_facebook_domain (url_hostname u)"
    from d have sf: "suffix ''facebook.com'' (map lower (url_hostname u))"
      by (rule in_facebook_domain_suffix)
    then have "url_hostname u \<noteq> []"
      by (auto simp: suffix_def)
    then have "url_hostname (set_hostname u ''mbasic.facebook.com'') = ''mbasic.facebook.com''"
      by (rule hostname_set_hostname)
    with p sf show "normalizeFacebookUrl P input = url_href (set_hostname u ''mbasic.facebook.com'')
        \<and> url_hostname (set_hostname u ''mbasic.facebook.com'') = ''mbasic.facebook.com''"
      by (simp add: normalizeFacebookUrl_cases)
  qed
  have 3: "URL_parse P input = Some u \<and> \<not> suffix ''facebook.com'' (map lower (url_hostname u)) \<longrightarrow>
        normalizeFacebookUrl P input = input"
    by (simp add: normalizeFacebookUrl_cases)
  have 4: "isl (request_url (P\<lparr>URL_parse := q\<rparr>) event_body) = isl (request_url P event_body)"
    by (rule request_url_parser_free)
  have 5: "b \<noteq> [] \<and> JSON_parse P b = Some (JObj kvs) \<and> map_of kvs ''url'' = Some (JStr t)
        \<and> trim t \<noteq> []
      \<longrightarrow> request_url P (Some b) = Inr (normalizeFacebookUrl P (trim t))"
    using request_url_string by blast
  from 1 2 3 4 5 show ?thesis by blast
qed

lemma trim_plain: "trim ''not a url'' = ''not a url''"
  by (simp add: trim_def is_ws_def)

text \<open>
  C7 as stated fails: an address that does not parse raises no error, neither in the
  normalizer nor in the handler's reading of the request. And not every host outside the
  target domain is left unchanged: \<open>notfacebook.com\<close> is rewritten.
\<close>

theorem unparsable_url_counterexample:
  "URL_parse sample_platform ''not a url'' = None
   \<and> normalizeFacebookUrl sample_platform ''not a url'' = ''not a url''
   \<and> request_url sample_platform (Some ''{\"url\":\"not a url\"}'') = Inr ''not a url''
   \<and> \<not> in_facebook_domain ''notfacebook.com''
   \<and> normalizeFacebookUrl sample_platform ''https://notfacebook.com/p''
       = ''https://mbasic.facebook.com/p''"
proof -
  have p: "URL_parse sample_platform ''not a url'' = None"
    by (simp add: sample_platform_def sample_parse_def)
  then have n: "normalizeFacebookUrl sample_platform ''not a url'' = ''not a url''"
    by (simp add: normalizeFacebookUrl_def)
  have j: "JSON_parse sample_platform ''{\"url\":\"not a url\"}'' = Some (JObj [(''url'', JStr ''not a url'')])"
    by (simp add: sample_platform_def sample_json_def)
  have r: "request_url sample_platform (Some ''{\"url\":\"not a url\"}'') = Inr ''not a url''"
    by (simp add: request_url_def request_body_def j js_get_def js_prop_def js_or_def truthy_def trim_plain n)
  have d: "\<not> in_facebook_domain ''notfacebook.com''"
    by (simp add: in_facebook_domain_def lower_def suffix_to_prefix)
  have w: "normalizeFacebookUrl sample_platform ''https://notfacebook.com/p''
       = ''https://mbasic.facebook.com/p''"
    by code_simp
  from p n r d w show ?thesis by blast
qed

theorem normalizer_total_witness:
  "normalizeFacebookUrl sample_platform ''https://m.facebook.com/story.php?id=1''
     = ''https://mbasic.facebook.com/story.php?id=1''
   \<and> normalizeFacebookUrl sample_platform ''https://example.org/a'' = ''https://example.org/a''
   \<and> normalizeFacebookUrl sample_platform ''no url at all'' = ''no url at all''
   \<and> request_url sample_platform (Some ''{\"url\":\"not a url\"}'')
       = Inr (normalizeFacebookUrl sample_platform ''not a url'')"
proof -
  let ?m = "web_url ''https'' [] [] ''m.facebook.com'' ''/story.php'' (Some ''id=1'')"
  let ?e = "web_url ''https'' [] [] ''example.org'' ''/a'' None"
  have j: "JSON_parse sample_platform ''{\"url\":\"not a url\"}'' = Some (JObj [(''url'', JStr ''not a url'')])"
    by (simp add: sample_platform_def sample_json_def)
  have pm: "URL_parse sample_platform ''https://m.facebook.com/story.php?id=1'' = Some ?m"
    by (simp add: sample_platform_def sample_parse_def)
  have dm: "in_facebook_domain (url_hostname ?m)"
    by (simp add: in_facebook_domain_def url_hostname_def web_url_def lower_def suffix_to_prefix)
  have hm: "url_href (set_hostname ?m ''mbasic.facebook.com'')
            = ''https://mbasic.facebook.com/story.php?id=1''"
    by (simp add: url_href_def set_hostname_def web_url_def credentials_def)
  have 1: "normalizeFacebookUrl sample_platform ''https://m.facebook.com/story.php?id=1''
     = ''https://mbasic.facebook.com/story.php?id=1''"
    using normalizer_total [of sample_platform "''https://m.facebook.com/story.php?id=1''" ?m,
        THEN conjunct2, THEN conjunct1] pm dm hm
    by simp
  have pe: "URL_parse sample_platform ''https://example.org/a'' = Some ?e"
    by (simp add: sample_platform_def sample_parse_def)
  have ne: "\<not> suffix ''facebook.com'' (map lower (url_hostname ?e))"
    by (simp add: url_hostname_def web_url_def lower_def suffix_to_prefix)
  have 2: "normalizeFacebookUrl sample_platform ''https://example.org/a'' = ''https://example.org/a''"
    using normalizer_total [of sample_platform "''https://example.org/a''" ?e,
        THEN conjunct2, THEN conjunct2, THEN conjunct1] pe ne
    by simp
  have pn: "URL_parse sample_platform ''no url at all'' = None"
    by (simp add: sample_platform_def sample_parse_def)
  have 3: "normalizeFacebookUrl sample_platform ''no url at all'' = ''no url at all''"
    using normalizer_total [of sample_platform "''no url at all''", THEN conjunct1] pn
    by simp
  have 4: "request_url sample_platform (Some ''{\"url\":\"not a url\"}'')
       = Inr (normalizeFacebookUrl sample_platform ''not a url'')"
    using normalizer_total [of sample_platform "[]" _ _ _ "''{\"url\":\"not a url\"}''"
        "[(''url'', JStr ''not a url'')]" "''not a url''", THEN conjunct2, THEN conjunct2,
        THEN conjunct2, THEN conjunct2] j
    by (simp add: trim_plain)
  from 1 2 3 4 show ?thesis by simp
qed

section \<open>The candidate generator\<close>

lemma href_origin_tail:
  assumes "scheme u \<in> set [''http'', ''https'', ''ftp'', ''ws'', ''wss'']"
    and "loc u = ListPath (Some a) p" and "credentials a = []"
  shows "url_href u = url_origin P u @ url_tail u"
  using assms
  by (simp add: url_href_def url_origin_def url_tail_def url_host_def url_pathname_def)

lemma distinct_candidate_hosts: "distinct (candidate_hosts h)"
  by (simp add: candidate_hosts_def)

text \<open>
  For a parsed web address without credentials the candidates are \<open>https\<close> addresses with
  the path, query and fragment of the input, on the original host first and then on the
  mirrors \<open>m.facebook.com\<close> and \<open>mbasic.facebook.com\<close>, each host once.
\<close>

lemma buildCandidateUrls_plain:
  assumes "URL_parse P input = Some u"
    and "scheme u \<in> set [''http'', ''https'', ''ftp'', ''ws'', ''wss'']"
    and "loc u = ListPath (Some a) p" and "credentials a = []"
  shows "buildCandidateUrls P input
         = Inr (map (\<lambda>h. ''https://'' @ h @ url_tail u) (candidate_hosts (url_host u)))"
proof -
  have "drop (length (url_origin P u)) (url_href u) = url_tail u"
    by (simp add: href_origin_tail [OF assms(2-4), of P])
  then show ?thesis
    using assms(1) by (simp add: buildCandidateUrls_def candidate_hosts_def Let_def)
qed

text \<open>
  C4 at an address with credentials. The origin leaves the credentials out and the
  serialized address has them, so cutting the address after the length of the origin cuts
  inside the host name: the candidates do not carry the path of the input.
\<close>

theorem buildCandidateUrls_credentials:
  "buildCandidateUrls sample_platform ''https://user:pw@www.facebook.com/x''
   = Inr [''https://www.facebook.combook.com/x'', ''https://m.facebook.combook.com/x'',
          ''https://mbasic.facebook.combook.com/x'']"
  by (simp add: buildCandidateUrls_def sample_platform_def sample_parse_def web_url_def
      url_host_def url_origin_def url_href_def credentials_def)

section \<open>The cookie parser\<close>

lemma trim_is_prefix: "\<exists>zs. dropWhile is_ws s = trim s @ zs"
proof -
  let ?s = "dropWhile is_ws s"
  have "?s = rev (takeWhile is_ws (rev ?s) @ dropWhile is_ws (rev ?s))"
    by (simp only: takeWhile_dropWhile_id rev_rev_ident)
  also have "\<dots> = trim s @ rev (takeWhile is_ws (rev ?s))"
    by (simp only: rev_append trim_def)
  finally show ?thesis by blast
qed

lemma dropWhile_trim: "dropWhile is_ws (trim s) = trim s"
proof (cases "trim s")
  case Nil
  then show ?thesis by simp
next
  case (Cons x xs)
  obtain zs where zs: "dropWhile is_ws s = trim s @ zs"
    using trim_is_prefix by blast
  with Cons have "dropWhile is_ws s \<noteq> []" and "hd (dropWhile is_ws s) = x"
    by simp_all
  then have "\<not> is_ws x"
    using hd_dropWhile [of is_ws s] by simp
  with Cons show ?thesis by simp
qed

lemma trim_trim: "trim (trim s) = trim s"
proof -
  have "dropWhile is_ws (rev (trim s)) = rev (trim s)"
    by (simp add: trim_def)
  then show ?thesis
    by (simp add: trim_def [of "trim s"] dropWhile_trim)
qed

lemma truthy_js_or: "truthy (Some b) \<Longrightarrow> truthy (Some (js_or a b))"
  by (cases a) (simp_all add: js_or_def)

lemma sanitizeCookie_normal:
  assumes "sanitizeCookie x = Inr (Some c)"
  shows "normal_cookie c"
proof -
  have d: "truthy (Some (JStr ''.facebook.com''))" "truthy (Some (JStr ''/''))"
    "truthy (Some (JStr ''Lax''))"
    by (simp_all add: truthy_def)
  from assms show ?thesis
    by (auto simp: sanitizeCookie_def normal_cookie_def trim_trim truthy_js_or d
        split: sum.splits if_splits)
qed

lemma sanitizeCookie_cookie_json:
  assumes "normal_cookie c"
  shows "sanitizeCookie (cookie_json c) = Inr (Some c)"
proof -
  obtain ss where ss: "sameSite c = Some ss" "truthy (Some ss)"
    using assms by (auto simp: normal_cookie_def split: option.splits)
  have n: "js_String (js_or (js_prop (cookie_json c) ''name'') (JStr [])) = Inr (name c)"
    using assms by (simp add: cookie_json_def js_prop_def js_or_def truthy_def normal_cookie_def)
  have v: "js_String (js_or (js_prop (cookie_json c) ''value'') (JStr [])) = Inr (value' c)"
    by (simp add: cookie_json_def js_prop_def js_or_def truthy_def)
  have d: "js_or (js_prop (cookie_json c) ''domain'') (JStr ''.facebook.com'') = domain c"
    using assms by (simp add: cookie_json_def js_prop_def js_or_def normal_cookie_def)
  have p: "js_or (js_prop (cookie_json c) ''path'') (JStr ''/'') = path c"
    using assms by (simp add: cookie_json_def js_prop_def js_or_def normal_cookie_def)
  have h: "truthy (js_prop (cookie_json c) ''httpOnly'') = httpOnly c"
    by (simp add: cookie_json_def js_prop_def truthy_def)
  have s: "(case js_prop (cookie_json c) ''secure'' of Some (JBool b) \<Rightarrow> b | _ \<Rightarrow> True) = secure c"
    by (simp add: cookie_json_def js_prop_def)
  have l: "js_or (js_prop (cookie_json c) ''sameSite'') (JStr ''Lax'') = ss"
    using ss by (simp add: cookie_json_def js_prop_def js_or_def)
  have e: "(case js_prop (cookie_json c) ''expires'' of Some (JNum x) \<Rightarrow> Some x | _ \<Rightarrow> None)
           = expires c"
    using ss by (simp add: cookie_json_def js_prop_def split: option.splits)
  have g: "js_get (cookie_json c) ''name'' = Inr (js_prop (cookie_json c) ''name'')"
    by (simp add: js_get_def cookie_json_def)
  show ?thesis
    unfolding sanitizeCookie_def g
    using assms ss(1) by (simp add: n v d p h s l e normal_cookie_def)
qed

lemma map_err_normal:
  "map_err sanitizeCookie xs = Inr cs \<Longrightarrow> list_all normal_cookie (filter_Boolean cs)"
proof (induction xs arbitrary: cs)
  case Nil
  then show ?case by (simp add: filter_Boolean_def)
next
  case (Cons x xs)
  from Cons.prems obtain y ys where y: "sanitizeCookie x = Inr y"
    and ys: "map_err sanitizeCookie xs = Inr ys" and cs: "cs = y # ys"
    by (auto split: sum.splits)
  from Cons.IH [OF ys] have "list_all normal_cookie (filter_Boolean ys)" .
  moreover have "y \<noteq> None \<Longrightarrow> normal_cookie (the y)"
    using y sanitizeCookie_normal by auto
  ultimately show ?case
    unfolding cs by (simp add: filter_Boolean_def)
qed

lemma map_err_cookie_json:
  "list_all normal_cookie cs \<Longrightarrow> map_err sanitizeCookie (map cookie_json cs) = Inr (map Some cs)"
  by (induction cs) (simp_all add: sanitizeCookie_cookie_json)

lemma filter_Boolean_Some: "filter_Boolean (map Some cs) = cs"
  by (induction cs) (simp_all add: filter_Boolean_def)

lemma truthy_JArr: "truthy (Some (JArr xs))"
  by (simp add: truthy_def)

lemma parseCookies_JArr:
  "parseCookies P (JArr xs) =
     (case map_err sanitizeCookie xs of Inl e \<Rightarrow> [] | Inr cs \<Rightarrow> filter_Boolean cs)"
  by (simp add: parseCookies_def parseCookies_try_def sanitizeCookiesArray_def truthy_JArr
      split: sum.splits)

lemma parseCookies_array_normal: "list_all normal_cookie (parseCookies P (JArr xs))"
  by (simp add: parseCookies_JArr map_err_normal split: sum.splits)

lemma parseCookies_reparse:
  "list_all normal_cookie cs \<Longrightarrow> parseCookies P (JArr (map cookie_json cs)) = cs"
  by (simp add: parseCookies_JArr map_err_cookie_json filter_Boolean_Some)

text \<open>
  On the array branch the parser is idempotent: every record it returns satisfies the
  invariant, and a list of such records is parsed to itself.
\<close>

lemma parseCookies_array_idempotent:
  "parseCookies P (JArr (map cookie_json (parseCookies P (JArr xs)))) = parseCookies P (JArr xs)"
  by (rule parseCookies_reparse) (rule parseCookies_array_normal)

lemma sanitizeCookiesArray_normal:
  "sanitizeCookiesArray arr = Inr cs \<Longrightarrow> list_all normal_cookie cs"
  by (auto simp: sanitizeCookiesArray_def map_err_normal split: json.splits sum.splits)

lemma parseCookies_json_normal:
  assumes "startsWith (trim t) ''[''"
  shows "list_all normal_cookie (parseCookies P (JStr t))"
proof -
  from assms have "trim t \<noteq> []"
    by (auto simp: startsWith_def)
  with assms show ?thesis
    by (auto simp: parseCookies_def parseCookies_try_def Let_def sanitizeCookiesArray_normal
        split: option.splits sum.splits)
qed

lemma trim_a: "trim ''a'' = ''a''" "trim ''b'' = ''b''" "trim ''a=b'' = ''a=b''" "trim ''=b'' = ''=b''"
  by (simp_all add: trim_def is_ws_def)

lemma parse_header_ab: "parseCookies P (JStr ''a=b'') = [header_ab]"
  by (simp add: parseCookies_def parseCookies_try_def truthy_def trim_a startsWith_def
      headerCookie_def filter_Boolean_def header_ab_def trim_Nil)

lemma parse_header_empty_name:
  "parseCookies P (JStr ''=b'') = [header_ab\<lparr>name := []\<rparr>]"
  by (simp add: parseCookies_def parseCookies_try_def truthy_def trim_a startsWith_def
      headerCookie_def filter_Boolean_def header_ab_def trim_Nil)

lemma parse_array_empty_name:
  "parseCookies P (JArr [JObj [(''name'', JStr []), (''value'', JStr ''b'')]]) = []"
  by (simp add: parseCookies_JArr sanitizeCookie_def js_get_def js_prop_def js_or_def truthy_def
      trim_a filter_Boolean_def trim_Nil)

lemma parse_array_ab:
  "parseCookies P (JArr [JObj [(''name'', JStr ''a''), (''value'', JStr ''b'')]])
   = [header_ab\<lparr>sameSite := Some (JStr ''Lax'')\<rparr>]"
  by (simp add: parseCookies_JArr sanitizeCookie_def js_get_def js_prop_def js_or_def truthy_def
      trim_a filter_Boolean_def header_ab_def)

lemma reparse_header_ab:
  "parseCookies P (JArr (map cookie_json (parseCookies P (JStr ''a=b''))))
   = [header_ab\<lparr>sameSite := Some (JStr ''Lax'')\<rparr>]"
  by (simp add: parse_header_ab parseCookies_JArr sanitizeCookie_def js_get_def js_prop_def js_or_def truthy_def
      trim_a filter_Boolean_def header_ab_def cookie_json_def)

lemma reparse_header_empty:
  "parseCookies P (JArr (map cookie_json (parseCookies P (JStr ''=b'')))) = []"
  by (simp add: parse_header_empty_name parseCookies_JArr sanitizeCookie_def js_get_def js_prop_def js_or_def truthy_def
      trim_a filter_Boolean_def header_ab_def cookie_json_def trim_Nil)

text \<open>
  C5 at the header string \<open>=b\<close>. The parser returns one record whose name is empty and
  which has no \<open>sameSite\<close>, where the array form of the same cookie is dropped: the header
  branch builds its records itself and does not pass them to \<open>sanitizeCookiesArray\<close>.
\<close>

theorem parseCookies_header_keeps_empty_name:
  "parseCookies P (JStr ''=b'')
     = [\<lparr>name = [], value' = ''b'', domain = JStr ''.facebook.com'', path = JStr ''/'',
         httpOnly = False, secure = True, sameSite = None, expires = None\<rparr>]
   \<and> \<not> list_all normal_cookie (parseCookies P (JStr ''=b''))
   \<and> parseCookies P (JArr [JObj [(''name'', JStr []), (''value'', JStr ''b'')]]) = []"
  by (simp add: parse_header_empty_name parse_array_empty_name header_ab_def normal_cookie_def)

text \<open>
  C6 at the header string \<open>a=b\<close>. The three forms give one record each, with name \<open>a\<close> and
  value \<open>b\<close>, but the record of the header form has no \<open>sameSite\<close>, and parsing that
  output again gives a different record, with \<open>sameSite\<close> set to \<open>Lax\<close>.
\<close>

theorem parseCookies_header_not_idempotent:
  "parseCookies P (JStr ''a=b'') = [header_ab]
   \<and> parseCookies P (JArr (map cookie_json (parseCookies P (JStr ''a=b''))))
       = [header_ab\<lparr>sameSite := Some (JStr ''Lax'')\<rparr>]
   \<and> parseCookies P (JArr (map cookie_json (parseCookies P (JStr ''a=b''))))
       \<noteq> parseCookies P (JStr ''a=b'')
   \<and> parseCookies P (JArr [JObj [(''name'', JStr ''a''), (''value'', JStr ''b'')]])
       \<noteq> parseCookies P (JStr ''a=b'')"
proof -
  have r: "parseCookies P (JArr (map cookie_json [header_ab]))
           = [header_ab\<lparr>sameSite := Some (JStr ''Lax'')\<rparr>]"
    using reparse_header_ab [of P] by (simp only: parse_header_ab)
  have ne: "header_ab\<lparr>sameSite := Some (JStr ''Lax'')\<rparr> \<noteq> header_ab"
    by (simp add: header_ab_def)
  show ?thesis
    by (simp only: parse_header_ab r parse_array_ab) (simp add: ne)
qed

section \<open>The render pipeline closes its session\<close>

lemma call_eq: "call w f tr = (\<not> throws w (length tr) f, tr @ [(f, \<not> throws w (length tr) f)])"
  by (simp add: call_def Let_def)

lemma acquired_filter: "acquired tr \<longleftrightarrow> filter is_launch tr \<noteq> []"
  by (simp add: acquired_def list_ex_iff filter_empty_conv)

lemma filter_call:
  "f \<noteq> LaunchLocal \<Longrightarrow> f \<noteq> LaunchChromium \<Longrightarrow>
   filter is_launch (snd (call w f tr)) = filter is_launch tr"
  by (simp add: call_eq is_launch_def)

lemma filter_run_ops:
  "LaunchLocal \<notin> set fs \<Longrightarrow> LaunchChromium \<notin> set fs \<Longrightarrow>
   filter is_launch (snd (run_ops w fs tr)) = filter is_launch tr"
  by (induction fs arbitrary: tr) (auto simp: call_eq is_launch_def)

lemma filter_attempt:
  "LaunchLocal \<notin> set fs \<Longrightarrow> LaunchChromium \<notin> set fs \<Longrightarrow>
   filter is_launch (attempt w fs tr) = filter is_launch tr"
  by (simp add: attempt_def filter_run_ops)

lemma filter_detect: "filter is_launch (snd (detect w tr)) = filter is_launch tr"
  by (simp add: detect_def call_eq is_launch_def split: option.splits)

lemma filter_on_error: "filter is_launch (snd (on_error w b tr)) = filter is_launch tr"
  by (simp add: on_error_def call_eq is_launch_def)

lemma filter_capture: "filter is_launch (snd (capture w url clip tr)) = filter is_launch tr"
  by (simp add: capture_def case_prod_beta filter_call filter_on_error)

lemma filter_navigate: "filter is_launch (snd (navigate w url tr)) = filter is_launch tr"
  by (simp add: navigate_def case_prod_beta filter_capture filter_detect filter_run_ops filter_on_error
      del: run_ops.simps)

lemma filter_prepare: "filter is_launch (snd (prepare w cookies url tr)) = filter is_launch tr"
  by (simp add: prepare_def case_prod_beta Let_def filter_navigate filter_attempt filter_run_ops
      filter_on_error del: run_ops.simps)

lemma render_launches:
  "filter is_launch (snd (render w cookies url)) = filter is_launch (snd (launch w []))"
  by (simp add: render_def case_prod_beta filter_prepare filter_on_error)

lemma run_ops_two:
  "run_ops w [f, g] tr =
     (if throws w (length tr) f then (False, tr @ [(f, False)])
      else if throws w (Suc (length tr)) g then (False, tr @ [(f, True), (g, False)])
      else (True, tr @ [(f, True), (g, True)]))"
  by (simp add: call_eq)

lemma launch_once:
  "length (filter is_launch (snd (launch w []))) \<le> 1
   \<and> (filter is_launch (snd (launch w [])) \<noteq> [] \<longleftrightarrow> fst (launch w []))"
proof (cases "on_lambda w")
  case True
  then show ?thesis
    by (simp add: launch_def run_ops_two is_launch_def del: run_ops.simps)
next
  case False
  then show ?thesis
    by (cases "throws w 0 RequirePuppeteer"; cases "throws w (Suc 0) LaunchLocal")
       (simp_all add: launch_def run_ops_two is_launch_def del: run_ops.simps)
qed

lemma last_on_error:
  "snd (on_error w True tr) \<noteq> [] \<and> fst (last (snd (on_error w True tr))) = Close"
  by (simp add: on_error_def call_eq)

lemma last_capture:
  "snd (capture w url clip tr) \<noteq> [] \<and> fst (last (snd (capture w url clip tr))) = Close"
  by (simp add: capture_def case_prod_beta last_on_error) (simp add: call_eq)

lemma last_navigate:
  "snd (navigate w url tr) \<noteq> [] \<and> fst (last (snd (navigate w url tr))) = Close"
  by (simp add: navigate_def case_prod_beta last_on_error last_capture del: run_ops.simps)

lemma last_prepare:
  "snd (prepare w cookies url tr) \<noteq> [] \<and> fst (last (snd (prepare w cookies url tr))) = Close"
  by (simp add: prepare_def case_prod_beta Let_def last_on_error last_navigate del: run_ops.simps)

lemma render_last_close:
  assumes "acquired (snd (render w cookies url))"
  shows "snd (render w cookies url) \<noteq> [] \<and> fst (last (snd (render w cookies url))) = Close"
proof -
  from assms have "fst (launch w [])"
    by (simp add: acquired_filter render_launches launch_once)
  then show ?thesis
    by (simp add: render_def case_prod_beta last_prepare)
qed

lemma render_captured_acquired:
  assumes "fst (render w cookies url) = Captured d u"
  shows "acquired (snd (render w cookies url))"
proof -
  have "fst (launch w [])"
  proof (rule ccontr)
    assume "\<not> fst (launch w [])"
    then have "fst (render w cookies url) = Failed"
      by (simp add: render_def case_prod_beta on_error_def)
    with assms show False by simp
  qed
  then show ?thesis
    by (simp add: acquired_filter render_launches launch_once)
qed

text \<open>
  C9. Whatever the world does, a run of the handler that acquired a browser session ends
  with a call of \<open>browser.close()\<close>: on the success path and on every exception after the
  launch, the close is the last call made before the reply. At most one session is
  acquired, and a run that acquired none replies without a capture. (A call that never
  returns is outside the model.)
\<close>

theorem session_closed_on_every_exit:
  assumes "screenshot_post P w env_json env_header httpMethod event_body = (r, tr)"
  shows "(acquired tr \<longrightarrow> tr \<noteq> [] \<and> fst (last tr) = Close)
         \<and> length (filter is_launch tr) \<le> 1
         \<and> (\<not> acquired tr \<longrightarrow> (\<forall>d u. r \<noteq> Captured d u))"
proof (cases "httpMethod = ''POST'' \<and> (\<exists>url. request_url P event_body = Inr url)")
  case True
  then obtain url where u: "request_url P event_body = Inr url" by blast
  let ?c = "parseCookies P (getCookieInput P env_json env_header event_body)"
  from True u assms have r: "render w ?c url = (r, tr)"
    by (simp add: screenshot_post_def)
  then have f: "fst (render w ?c url) = r" and s: "snd (render w ?c url) = tr"
    by simp_all
  have "acquired tr \<longrightarrow> tr \<noteq> [] \<and> fst (last tr) = Close"
    using render_last_close [of w ?c url] unfolding s by blast
  moreover have "length (filter is_launch tr) \<le> 1"
    using render_launches [of w ?c url] launch_once [of w] unfolding s by simp
  moreover have "\<not> acquired tr \<longrightarrow> (\<forall>d u. r \<noteq> Captured d u)"
    using render_captured_acquired [of w ?c url] unfolding f s by blast
  ultimately show ?thesis by blast
next
  case False
  with assms have "tr = [] \<and> (\<forall>d u. r \<noteq> Captured d u)"
    by (auto simp: screenshot_post_def split: if_splits sum.splits)
  then show ?thesis
    by (simp add: acquired_def)
qed

lemma sample_request:
  "request_url sample_platform (Some ''{\"url\":\"not a url\"}'') = Inr ''not a url''"
proof -
  have "JSON_parse sample_platform ''{\"url\":\"not a url\"}''
        = Some (JObj [(''url'', JStr ''not a url'')])"
    by (simp add: sample_platform_def sample_json_def)
  moreover have "normalizeFacebookUrl sample_platform ''not a url'' = ''not a url''"
    by (simp add: normalizeFacebookUrl_def sample_platform_def sample_parse_def)
  ultimately show ?thesis
    by (simp add: request_url_def request_body_def js_get_def js_prop_def js_or_def truthy_def
        trim_plain)
qed

lemma sample_cookies:
  "parseCookies sample_platform
     (getCookieInput sample_platform [] [] (Some ''{\"url\":\"not a url\"}'')) = []"
  by (simp add: getCookieInput_def request_body_def sample_platform_def sample_json_def
      js_get_def js_prop_def js_or_def truthy_def parseCookies_def)

lemma sample_failed_run:
  "screenshot_post sample_platform (sample_world\<lparr>throws := \<lambda>n f. f = AddStyleTag\<rparr>) [] []
     ''POST'' (Some ''{\"url\":\"not a url\"}'')
   = (Failed, [(RequirePuppeteer, True), (LaunchLocal, True), (NewPage, True), (SetTimeouts, True),
        (SetUserAgent, True), (SetRequestInterception, True), (Goto ''not a url'', True),
        (AddStyleTag, False), (Close, True)])"
  by (simp add: screenshot_post_def sample_request sample_cookies render_def launch_def prepare_def
      navigate_def attempt_def on_error_def call_eq sample_world_def)

theorem session_closed_on_every_exit_witness:
  "acquired (snd (screenshot_post sample_platform (sample_world\<lparr>throws := \<lambda>n f. f = AddStyleTag\<rparr>)
       [] [] ''POST'' (Some ''{\"url\":\"not a url\"}'')))
   \<and> fst (last (snd (screenshot_post sample_platform
       (sample_world\<lparr>throws := \<lambda>n f. f = AddStyleTag\<rparr>)
       [] [] ''POST'' (Some ''{\"url\":\"not a url\"}'')))) = Close
   \<and> fst (screenshot_post sample_platform (sample_world\<lparr>throws := \<lambda>n f. f = AddStyleTag\<rparr>)
       [] [] ''POST'' (Some ''{\"url\":\"not a url\"}'')) = Failed"
proof -
  have a: "acquired [(RequirePuppeteer, True), (LaunchLocal, True), (NewPage, True), (SetTimeouts, True),
        (SetUserAgent, True), (SetRequestInterception, True), (Goto ''not a url'', True),
        (AddStyleTag, False), (Close, True)]"
    by (simp add: acquired_def is_launch_def)
  from session_closed_on_every_exit [OF sample_failed_run] a show ?thesis
    unfolding sample_failed_run by simp
qed

section \<open>The region detector\<close>

lemma clip_of_positive:
  "0 < width b \<Longrightarrow> 0 < height b \<Longrightarrow>
   clip_of (Some b) = Some \<lparr>xpos = max 0 (xpos b - 8), ypos = max 0 (ypos b - 8),
                             width = width b + 16, height = height b + 16\<rparr>"
  by (simp add: clip_of_def)

lemma clip_of_inner:
  "0 < width b \<Longrightarrow> 0 < height b \<Longrightarrow> 8 \<le> xpos b \<Longrightarrow> 8 \<le> ypos b \<Longrightarrow>
   clip_of (Some b) = Some (expand8 b)"
  by (simp add: clip_of_def expand8_def max_def)

lemma clip_of_absent:
  "clip_of None = None" "\<not> (0 < width b \<and> 0 < height b) \<Longrightarrow> clip_of (Some b) = None"
  by (auto simp: clip_of_def)

lemma detect_cases:
  "fst (detect w tr) =
     (if throws w (length tr) Query then None
      else case querySelector post_selectors (document w) of
             None \<Rightarrow> None
           | Some candidate \<Rightarrow>
               if throws w (Suc (length tr)) BoundingBox then None
               else clip_of (boundingBox candidate))"
  by (simp add: detect_def call_eq split: option.splits)

lemma run_ops_ok:
  "\<forall>n. \<forall>f\<in>set fs. \<not> throws w n f \<Longrightarrow> run_ops w fs tr = (True, tr @ map (\<lambda>f. (f, True)) fs)"
  by (induction fs arbitrary: tr) (simp_all add: call_eq)

lemma capture_ok:
  assumes "\<forall>n f. throws w n f \<longrightarrow> f = Query \<or> f = BoundingBox"
  shows "capture w url clip tr
         = (Captured (''data:image/jpeg;base64,'' @ screenshot_data w) url,
            tr @ [(Screenshot clip, True), (Close, True)])"
proof -
  have "\<not> throws w n (Screenshot clip)" "\<not> throws w n Close" for n
    using assms by blast+
  then show ?thesis
    by (simp add: capture_def call_eq)
qed

lemma navigate_unfold:
  assumes "run_ops w [Goto url, AddStyleTag, WaitForTimeout] tr = (True, t)"
  shows "navigate w url tr = capture w url (fst (detect w t)) (snd (detect w t))"
  unfolding navigate_def assms by (simp add: case_prod_beta)

lemma navigate_ok:
  assumes "\<forall>n f. throws w n f \<longrightarrow> f = Query \<or> f = BoundingBox"
  shows "\<exists>t. navigate w url tr
         = (Captured (''data:image/jpeg;base64,'' @ screenshot_data w) url,
            snd (detect w t) @ [(Screenshot (fst (detect w t)), True), (Close, True)])"
proof -
  have "run_ops w [Goto url, AddStyleTag, WaitForTimeout] tr
        = (True, tr @ map (\<lambda>f. (f, True)) [Goto url, AddStyleTag, WaitForTimeout])"
    by (rule run_ops_ok) (use assms in auto)
  then have "navigate w url tr
     = capture w url
         (fst (detect w (tr @ map (\<lambda>f. (f, True)) [Goto url, AddStyleTag, WaitForTimeout])))
         (snd (detect w (tr @ map (\<lambda>f. (f, True)) [Goto url, AddStyleTag, WaitForTimeout])))"
    by (rule navigate_unfold)
  also have "\<dots> = (Captured (''data:image/jpeg;base64,'' @ screenshot_data w) url,
      snd (detect w (tr @ map (\<lambda>f. (f, True)) [Goto url, AddStyleTag, WaitForTimeout]))
      @ [(Screenshot (fst (detect w (tr @ map (\<lambda>f. (f, True))
            [Goto url, AddStyleTag, WaitForTimeout]))), True), (Close, True)])"
    by (rule capture_ok [OF assms])
  finally show ?thesis by blast
qed

lemma prepare_unfold:
  assumes "run_ops w [NewPage, SetTimeouts, SetUserAgent] tr = (True, t)"
  shows "\<exists>t'. prepare w cookies url tr = navigate w url t'"
  unfolding prepare_def assms by (simp add: Let_def del: run_ops.simps) blast

lemma prepare_ok:
  assumes "\<forall>n f. throws w n f \<longrightarrow> f = Query \<or> f = BoundingBox"
  shows "\<exists>t. prepare w cookies url tr
         = (Captured (''data:image/jpeg;base64,'' @ screenshot_data w) url,
            snd (detect w t) @ [(Screenshot (fst (detect w t)), True), (Close, True)])"
proof -
  have "run_ops w [NewPage, SetTimeouts, SetUserAgent] tr
           = (True, tr @ map (\<lambda>f. (f, True)) [NewPage, SetTimeouts, SetUserAgent])"
    by (rule run_ops_ok) (use assms in auto)
  then obtain t' where "prepare w cookies url tr = navigate w url t'"
    using prepare_unfold by blast
  moreover obtain t where "navigate w url t'
         = (Captured (''data:image/jpeg;base64,'' @ screenshot_data w) url,
            snd (detect w t) @ [(Screenshot (fst (detect w t)), True), (Close, True)])"
    using navigate_ok [OF assms] by blast
  ultimately have "prepare w cookies url tr
         = (Captured (''data:image/jpeg;base64,'' @ screenshot_data w) url,
            snd (detect w t) @ [(Screenshot (fst (detect w t)), True), (Close, True)])"
    by (rule trans)
  then show ?thesis by blast
qed

lemma launch_ok:
  assumes "\<forall>n f. throws w n f \<longrightarrow> f = Query \<or> f = BoundingBox"
  shows "fst (launch w tr)"
proof -
  have "\<not> throws w n RequirePuppeteer" "\<not> throws w n LaunchLocal"
    "\<not> throws w n ExecutablePath" "\<not> throws w n LaunchChromium" for n
    using assms by blast+
  then show ?thesis
    by (simp add: launch_def run_ops_two del: run_ops.simps)
qed

lemma render_ok:
  assumes "\<forall>n f. throws w n f \<longrightarrow> f = Query \<or> f = BoundingBox"
  shows "\<exists>t. render w cookies url
         = (Captured (''data:image/jpeg;base64,'' @ screenshot_data w) url,
            snd (detect w t) @ [(Screenshot (fst (detect w t)), True), (Close, True)])"
proof -
  have "render w cookies url = prepare w cookies url (snd (launch w []))"
    using launch_ok [OF assms, of "[]"] by (simp add: render_def case_prod_beta)
  moreover obtain t where "prepare w cookies url (snd (launch w []))
         = (Captured (''data:image/jpeg;base64,'' @ screenshot_data w) url,
            snd (detect w t) @ [(Screenshot (fst (detect w t)), True), (Close, True)])"
    using prepare_ok [OF assms] by blast
  ultimately have "render w cookies url
         = (Captured (''data:image/jpeg;base64,'' @ screenshot_data w) url,
            snd (detect w t) @ [(Screenshot (fst (detect w t)), True), (Close, True)])"
    by (rule trans)
  then show ?thesis by blast
qed

lemma querySelector_first:
  "querySelector sels els = Some e \<longleftrightarrow>
     (\<exists>before after. els = before @ e # after
        \<and> (\<exists>s\<in>set sels. s \<in> set (matched e))
        \<and> (\<forall>x\<in>set before. \<forall>s\<in>set sels. s \<notin> set (matched x)))"
proof -
  have "querySelector sels els = Some e \<longleftrightarrow>
     (\<exists>i<length els. list_ex (\<lambda>s. s \<in> set (matched (els ! i))) sels \<and> e = els ! i
        \<and> (\<forall>j<i. \<not> list_ex (\<lambda>s. s \<in> set (matched (els ! j))) sels))"
    by (simp add: querySelector_def find_Some_iff)
  also have "\<dots> \<longleftrightarrow>
     (\<exists>before after. els = before @ e # after
        \<and> (\<exists>s\<in>set sels. s \<in> set (matched e))
        \<and> (\<forall>x\<in>set before. \<forall>s\<in>set sels. s \<notin> set (matched x)))"
  proof
    assume "\<exists>i<length els. list_ex (\<lambda>s. s \<in> set (matched (els ! i))) sels \<and> e = els ! i
        \<and> (\<forall>j<i. \<not> list_ex (\<lambda>s. s \<in> set (matched (els ! j))) sels)"
    then obtain i where i: "i < length els" "list_ex (\<lambda>s. s \<in> set (matched (els ! i))) sels"
      "e = els ! i" "\<forall>j<i. \<not> list_ex (\<lambda>s. s \<in> set (matched (els ! j))) sels"
      by blast
    have "els = take i els @ e # drop (Suc i) els"
      using i(1,3) by (simp add: id_take_nth_drop)
    moreover have "\<exists>s\<in>set sels. s \<in> set (matched e)"
      using i(2,3) by (simp add: list_ex_iff)
    moreover have "\<forall>x\<in>set (take i els). \<forall>s\<in>set sels. s \<notin> set (matched x)"
    proof
      fix x assume "x \<in> set (take i els)"
      then obtain j where "j < i" "x = els ! j"
        using i(1) by (auto simp: in_set_conv_nth)
      with i(4) show "\<forall>s\<in>set sels. s \<notin> set (matched x)"
        by (simp add: list_ex_iff)
    qed
    ultimately show "\<exists>before after. els = before @ e # after
        \<and> (\<exists>s\<in>set sels. s \<in> set (matched e))
        \<and> (\<forall>x\<in>set before. \<forall>s\<in>set sels. s \<notin> set (matched x))"
      by blast
  next
    assume "\<exists>before after. els = before @ e # after
        \<and> (\<exists>s\<in>set sels. s \<in> set (matched e))
        \<and> (\<forall>x\<in>set before. \<forall>s\<in>set sels. s \<notin> set (matched x))"
    then obtain before after where ba: "els = before @ e # after"
      "\<exists>s\<in>set sels. s \<in> set (matched e)"
      "\<forall>x\<in>set before. \<forall>s\<in>set sels. s \<notin> set (matched x)"
      by blast
    have "length before < length els"
      using ba(1) by simp
    moreover have "els ! length before = e"
      using ba(1) by simp
    moreover have "\<forall>j<length before. \<not> list_ex (\<lambda>s. s \<in> set (matched (els ! j))) sels"
      using ba(1,3) by (simp add: list_ex_iff nth_append)
    ultimately show "\<exists>i<length els. list_ex (\<lambda>s. s \<in> set (matched (els ! i))) sels
        \<and> e = els ! i \<and> (\<forall>j<i. \<not> list_ex (\<lambda>s. s \<in> set (matched (els ! j))) sels)"
      using ba(2) by (metis list_ex_iff)
  qed
  finally show ?thesis .
qed

text \<open>
  C8, as the code has it. The element of the detection is the first element of the page,
  in document order, that matches any of the five selectors; it need not be a match of the
  first selector that matches. For a box of positive width and height the clip starts at
  \<open>max 0 (x - 8)\<close> and \<open>max 0 (y - 8)\<close> and is \<open>width + 16\<close> by \<open>height + 16\<close>; that is the
  box grown by eight pixels on every side when the box is at least eight pixels away from
  the left and the top edge of the page. There is no clip when no element matches, when
  the element has no box, when width or height is not positive, and when the query or the
  box throws. Detection alone never makes the run fail: in a world where only these two
  calls may throw, the run ends with the detection, a screenshot with the detected clip
  (the full page when there is none) and the close, and replies with the capture.
\<close>

theorem region_clip:
  "(querySelector post_selectors (document w) = Some e \<longleftrightarrow>
      (\<exists>before after. document w = before @ e # after
         \<and> (\<exists>s\<in>set post_selectors. s \<in> set (matched e))
         \<and> (\<forall>x\<in>set before. \<forall>s\<in>set post_selectors. s \<notin> set (matched x))))
   \<and> (0 < width b \<and> 0 < height b \<longrightarrow>
      clip_of (Some b) = Some \<lparr>xpos = max 0 (xpos b - 8), ypos = max 0 (ypos b - 8),
                                width = width b + 16, height = height b + 16\<rparr>)
   \<and> (0 < width b \<and> 0 < height b \<and> 8 \<le> xpos b \<and> 8 \<le> ypos b \<longrightarrow>
      clip_of (Some b) = Some (expand8 b))
   \<and> (\<not> (0 < width b \<and> 0 < height b) \<longrightarrow> clip_of (Some b) = None)
   \<and> clip_of None = None
   \<and> fst (detect w tr) =
       (if throws w (length tr) Query then None
        else case querySelector post_selectors (document w) of
               None \<Rightarrow> None
             | Some candidate \<Rightarrow>
                 if throws w (Suc (length tr)) BoundingBox then None
                 else clip_of (boundingBox candidate))
   \<and> ((\<forall>n f. throws w n f \<longrightarrow> f = Query \<or> f = BoundingBox) \<longrightarrow>
      (\<exists>t. render w cookies url
         = (Captured (''data:image/jpeg;base64,'' @ screenshot_data w) url,
            snd (detect w t) @ [(Screenshot (fst (detect w t)), True), (Close, True)])))"
  using querySelector_first [of post_selectors "document w" e]
    clip_of_positive [of b] clip_of_inner [of b] clip_of_absent(1) clip_of_absent(2) [of b]
    detect_cases [of w tr] render_ok [of w cookies url]
  by blast

text \<open>
  C8 as stated fails in two ways. For a box in the corner of the page the clip starts at
  the corner and is sixteen pixels wider and higher, which is not the box grown by eight
  pixels on every side. And on a page whose main region comes before the article, the
  detection takes the main region, a match of the last selector, although the first
  selector matches the article.
\<close>

theorem region_clip_counterexample:
  "clip_of (Some \<lparr>xpos = 0, ypos = 0, width = 100, height = 50\<rparr>)
     = Some \<lparr>xpos = 0, ypos = 0, width = 116, height = 66\<rparr>
   \<and> clip_of (Some \<lparr>xpos = 0, ypos = 0, width = 100, height = 50\<rparr>)
     \<noteq> Some (expand8 \<lparr>xpos = 0, ypos = 0, width = 100, height = 50\<rparr>)
   \<and> by_selector_order post_selectors (document sample_world) = Some article_element
   \<and> querySelector post_selectors (document sample_world) = Some main_region
   \<and> fst (detect sample_world []) = clip_of (boundingBox main_region)
   \<and> clip_of (boundingBox main_region) \<noteq> clip_of (boundingBox article_element)"
proof -
  have 1: "clip_of (Some \<lparr>xpos = 0, ypos = 0, width = 100, height = 50\<rparr>)
     = Some \<lparr>xpos = 0, ypos = 0, width = 116, height = 66\<rparr>"
    by (simp add: clip_of_def)
  have 2: "clip_of (Some \<lparr>xpos = 0, ypos = 0, width = 100, height = 50\<rparr>)
     \<noteq> Some (expand8 \<lparr>xpos = 0, ypos = 0, width = 100, height = 50\<rparr>)"
    by (simp add: clip_of_def expand8_def)
  have 3: "by_selector_order post_selectors (document sample_world) = Some article_element"
    by (simp add: post_selectors_def sample_world_def main_region_def article_element_def)
  have 4: "querySelector post_selectors (document sample_world) = Some main_region"
    by (simp add: querySelector_def post_selectors_def sample_world_def main_region_def)
  have 5: "fst (detect sample_world []) = clip_of (boundingBox main_region)"
    by (simp add: detect_cases 4) (simp add: sample_world_def)
  have 6: "clip_of (boundingBox main_region) \<noteq> clip_of (boundingBox article_element)"
    by (simp add: clip_of_def main_region_def article_element_def)
  from 1 2 3 4 5 6 show ?thesis by blast
qed

theorem region_clip_witness:
  "clip_of (Some \<lparr>xpos = 10, ypos = 20, width = 100, height = 50\<rparr>)
     = Some \<lparr>xpos = 2, ypos = 12, width = 116, height = 66\<rparr>
   \<and> clip_of (Some \<lparr>xpos = 10, ypos = 20, width = 100, height = 50\<rparr>)
     = Some (expand8 \<lparr>xpos = 10, ypos = 20, width = 100, height = 50\<rparr>)
   \<and> clip_of (Some \<lparr>xpos = 10, ypos = 20, width = 0, height = 50\<rparr>) = None
   \<and> querySelector post_selectors (document sample_world) = Some main_region
   \<and> (\<exists>t. render (sample_world\<lparr>throws := \<lambda>n f. f = Query\<rparr>) [] ''u''
         = (Captured ''data:image/jpeg;base64,QUJD'' ''u'',
            t @ [(Query, False), (Screenshot None, True), (Close, True)]))"
proof -
  let ?b = "\<lparr>xpos = 10, ypos = 20, width = 100, height = 50\<rparr>"
  let ?z = "\<lparr>xpos = 10, ypos = 20, width = 0, height = 50\<rparr>"
  let ?w = "sample_world\<lparr>throws := \<lambda>n f. f = Query\<rparr>"
  have 1: "clip_of (Some ?b) = Some \<lparr>xpos = 2, ypos = 12, width = 116, height = 66\<rparr>"
    using region_clip [of sample_world main_region ?b, THEN conjunct2, THEN conjunct1] by simp
  have 2: "clip_of (Some ?b) = Some (expand8 ?b)"
    using region_clip [of sample_world main_region ?b, THEN conjunct2, THEN conjunct2,
        THEN conjunct1] by simp
  have 3: "clip_of (Some ?z) = None"
    using region_clip [of sample_world main_region ?z, THEN conjunct2, THEN conjunct2,
        THEN conjunct2, THEN conjunct1] by simp
  have doc: "document sample_world = [] @ main_region # [article_element]"
    by (simp add: sample_world_def)
  have m: "\<exists>s\<in>set post_selectors. s \<in> set (matched main_region)"
    by (simp add: post_selectors_def main_region_def)
  have 4: "querySelector post_selectors (document sample_world) = Some main_region"
    using region_clip [of sample_world main_region ?b, THEN conjunct1] doc m
    by (metis empty_iff list.set(1))
  have h: "\<forall>n f. throws ?w n f \<longrightarrow> f = Query \<or> f = BoundingBox"
    by simp
  have d: "detect ?w t = (None, t @ [(Query, False)])" for t
    by (simp add: detect_def call_def)
  have i: "screenshot_data ?w = ''QUJD''"
    by (simp add: sample_world_def)
  from region_clip [of ?w main_region ?b "[]" "[]" "''u''", THEN conjunct2, THEN conjunct2,
      THEN conjunct2, THEN conjunct2, THEN conjunct2, THEN conjunct2] h
  obtain t where "render ?w [] ''u''
         = (Captured (''data:image/jpeg;base64,'' @ screenshot_data ?w) ''u'',
            snd (detect ?w t) @ [(Screenshot (fst (detect ?w t)), True), (Close, True)])"
    by blast
  then have "render ?w [] ''u''
         = (Captured ''data:image/jpeg;base64,QUJD'' ''u'',
            t @ [(Query, False), (Screenshot None, True), (Close, True)])"
    unfolding d i by simp
  then have 5: "\<exists>t. render ?w [] ''u''
         = (Captured ''data:image/jpeg;base64,QUJD'' ''u'',
            t @ [(Query, False), (Screenshot None, True), (Close, True)])"
    by blast
  from 1 2 3 4 5 show ?thesis by blast
qed

section \<open>The static fetcher\<close>

lemma ua_loop_scan: "ua_loop f c uas tried = scan f (map (Pair c) uas) tried"
  by (induction uas arbitrary: tried) (auto simp: Let_def qualifies_def label_def split: option.splits)

lemma scan_append:
  "scan f (xs @ ys) tried =
     (case scan f xs tried of (t, Some h) \<Rightarrow> (t, Some h) | (t, None) \<Rightarrow> scan f ys t)"
  by (induction xs arbitrary: tried) (simp_all add: Let_def)

lemma candidate_loop_scan: "candidate_loop f cs uas tried = scan f (attempts cs uas) tried"
proof (induction cs arbitrary: tried)
  case Nil
  show ?case by (simp add: attempts_def)
next
  case (Cons c cs)
  have "attempts (c # cs) uas = map (Pair c) uas @ attempts cs uas"
    by (simp add: attempts_def)
  then show ?case
    by (simp add: scan_append ua_loop_scan Cons.IH split: prod.splits option.splits)
qed

lemma answer_Cons: "answer f n (p # ps) (Suc i) = answer f (Suc n) ps i"
  by (simp add: answer_def)

lemma answer_0: "answer f n (p # ps) 0 = f n (fst p) (buildHeaders (snd p))"
  by (simp add: answer_def)

lemma scan_none:
  "(\<forall>i<length ps. \<not> qualifies (answer f (length tried) ps i))
   \<Longrightarrow> scan f ps tried = (tried @ map label ps, None)"
proof (induction ps arbitrary: tried)
  case Nil
  show ?case by simp
next
  case (Cons p ps)
  from Cons.prems have 0: "\<not> qualifies (f (length tried) (fst p) (buildHeaders (snd p)))"
    using answer_0 [of f "length tried" p ps] by auto
  have "\<forall>i<length ps. \<not> qualifies (answer f (length (tried @ [label p])) ps i)"
  proof (intro allI impI)
    fix i assume "i < length ps"
    then have "\<not> qualifies (answer f (length tried) (p # ps) (Suc i))"
      using Cons.prems by auto
    then show "\<not> qualifies (answer f (length (tried @ [label p])) ps i)"
      by (simp add: answer_Cons)
  qed
  from Cons.IH [OF this] 0 show ?case
    by (simp add: Let_def)
qed

lemma scan_hit:
  "k < length ps \<Longrightarrow> qualifies (answer f (length tried) ps k)
   \<Longrightarrow> (\<forall>i<k. \<not> qualifies (answer f (length tried) ps i))
   \<Longrightarrow> scan f ps tried =
        (tried @ map label (take (Suc k) ps),
         Some (res_text (the (answer f (length tried) ps k)),
               str_or (res_url (the (answer f (length tried) ps k))) (fst (ps ! k))))"
proof (induction ps arbitrary: tried k)
  case Nil
  then show ?case by simp
next
  case (Cons p ps)
  show ?case
  proof (cases k)
    case 0
    with Cons.prems show ?thesis
      by (simp add: answer_0 Let_def)
  next
    case (Suc j)
    from Cons.prems(3) Suc have 0: "\<not> qualifies (f (length tried) (fst p) (buildHeaders (snd p)))"
      using answer_0 [of f "length tried" p ps] by auto
    have j: "j < length ps" using Cons.prems(1) Suc by simp
    have q: "qualifies (answer f (length (tried @ [label p])) ps j)"
      using Cons.prems(2) Suc by (simp add: answer_Cons)
    have n: "\<forall>i<j. \<not> qualifies (answer f (length (tried @ [label p])) ps i)"
    proof (intro allI impI)
      fix i assume "i < j"
      then have "\<not> qualifies (answer f (length tried) (p # ps) (Suc i))"
        using Cons.prems(3) Suc by auto
      then show "\<not> qualifies (answer f (length (tried @ [label p])) ps i)"
        by (simp add: answer_Cons)
    qed
    from Cons.IH [OF j q n] 0 Suc show ?thesis
      by (simp add: Let_def answer_Cons)
  qed
qed

lemma fb_scrape_loop:
  assumes "event_body = Some b" and "b \<noteq> []" and "JSON_parse P b = Some (JObj kvs)"
    and "map_of kvs ''url'' = Some (JStr url)" and "url \<noteq> []"
    and "buildCandidateUrls P url = Inr cs"
    and "candidate_loop f cs [''chrome'', ''fb''] [] = (tried, None)"
  shows "fb_scrape P f ''POST'' event_body = FetchFailed tried"
  using assms by (simp add: fb_scrape_def request_body_def js_get_def js_prop_def)

text \<open>
  C1, as the code has it. The two loops make the attempts in row-major order, all
  identities for the first candidate, then the second, and so on. An attempt qualifies when
  its response is there, is HTTP-successful, has a body that is not empty, and is not a login
  interstitial; so a login wall with status 200 does not qualify. When no attempt
  qualifies, every attempt is made and the outcome is a failure that carries the labels of
  all of them, which the handler returns as \<open>fetch-failed\<close>. When the \<open>k\<close>-th attempt is
  the first that qualifies, the attempts up to it are made and no other, and the outcome
  is its body and its final address.
\<close>

theorem static_fetcher_row_major:
  "((\<forall>i<length (attempts cs uas). \<not> qualifies (answer f 0 (attempts cs uas) i)) \<longrightarrow>
      candidate_loop f cs uas [] = (map label (attempts cs uas), None))
   \<and> (k < length (attempts cs uas) \<and> qualifies (answer f 0 (attempts cs uas) k)
        \<and> (\<forall>i<k. \<not> qualifies (answer f 0 (attempts cs uas) i)) \<longrightarrow>
      candidate_loop f cs uas [] =
        (map label (take (Suc k) (attempts cs uas)),
         Some (res_text (the (answer f 0 (attempts cs uas) k)),
               str_or (res_url (the (answer f 0 (attempts cs uas) k))) (fst (attempts cs uas ! k)))))
   \<and> (qualifies (Some r) \<longleftrightarrow>
        res_ok r \<and> res_text r \<noteq> [] \<and> \<not> isFacebookLoginInterstitial (res_text r))
   \<and> (b \<noteq> [] \<and> JSON_parse P b = Some (JObj kvs) \<and> map_of kvs ''url'' = Some (JStr url)
        \<and> url \<noteq> [] \<and> buildCandidateUrls P url = Inr cs
        \<and> (\<forall>i<length (attempts cs [''chrome'', ''fb'']).
              \<not> qualifies (answer f 0 (attempts cs [''chrome'', ''fb'']) i)) \<longrightarrow>
      fb_scrape P f ''POST'' (Some b) = FetchFailed (map label (attempts cs [''chrome'', ''fb''])))"
proof -
  have 1: "(\<forall>i<length (attempts cs us). \<not> qualifies (answer f 0 (attempts cs us) i)) \<longrightarrow>
      candidate_loop f cs us [] = (map label (attempts cs us), None)" for us
    using scan_none [of "attempts cs us" f "[]"] by (simp add: candidate_loop_scan)
  have 2: "k < length (attempts cs uas) \<and> qualifies (answer f 0 (attempts cs uas) k)
        \<and> (\<forall>i<k. \<not> qualifies (answer f 0 (attempts cs uas) i)) \<longrightarrow>
      candidate_loop f cs uas [] =
        (map label (take (Suc k) (attempts cs uas)),
         Some (res_text (the (answer f 0 (attempts cs uas) k)),
               str_or (res_url (the (answer f 0 (attempts cs uas) k))) (fst (attempts cs uas ! k))))"
    using scan_hit [of k "attempts cs uas" f "[]"] by (simp add: candidate_loop_scan)
  have 3: "qualifies (Some r) \<longleftrightarrow>
        res_ok r \<and> res_text r \<noteq> [] \<and> \<not> isFacebookLoginInterstitial (res_text r)"
    by (simp add: qualifies_def)
  have 4: "b \<noteq> [] \<and> JSON_parse P b = Some (JObj kvs) \<and> map_of kvs ''url'' = Some (JStr url)
        \<and> url \<noteq> [] \<and> buildCandidateUrls P url = Inr cs
        \<and> (\<forall>i<length (attempts cs [''chrome'', ''fb'']).
              \<not> qualifies (answer f 0 (attempts cs [''chrome'', ''fb'']) i)) \<longrightarrow>
      fb_scrape P f ''POST'' (Some b) = FetchFailed (map label (attempts cs [''chrome'', ''fb'']))"
    using fb_scrape_loop [of "Some b" b P kvs url cs f] 1 [of "[''chrome'', ''fb'']"] by blast
  from 1 [of uas] 2 3 4 show ?thesis by blast
qed

text \<open>
  C1 as stated fails for a response that is HTTP-successful with an empty body: it matches
  no login signature, and still the loops go on to the next attempt and end in a failure.
\<close>

theorem empty_body_counterexample:
  "res_ok empty_ok \<and> \<not> isFacebookLoginInterstitial (res_text empty_ok)
   \<and> candidate_loop (\<lambda>n c h. Some empty_ok) [''c''] [''chrome'', ''fb''] []
       = ([''c [ua:chrome]'', ''c [ua:fb]''], None)"
  by (simp add: empty_ok_def isFacebookLoginInterstitial_def)

lemma login_wall_detected: "isFacebookLoginInterstitial (res_text login_wall)"
  by code_simp

lemma plain_page_passes: "\<not> isFacebookLoginInterstitial (res_text plain_page)"
  by code_simp

lemma sample_attempts:
  "attempts [''https://a/p'', ''https://b/p''] [''chrome'', ''fb'']
   = [(''https://a/p'', ''chrome''), (''https://a/p'', ''fb''),
      (''https://b/p'', ''chrome''), (''https://b/p'', ''fb'')]"
  by (simp add: attempts_def)

theorem static_fetcher_row_major_witness:
  "candidate_loop sample_fetch [''https://a/p'', ''https://b/p''] [''chrome'', ''fb''] []
     = ([''https://a/p [ua:chrome]'', ''https://a/p [ua:fb]'', ''https://b/p [ua:chrome]''],
        Some (''<title>A</title>'', ''https://b/p''))
   \<and> candidate_loop (\<lambda>n c h. None) [''https://a/p'', ''https://b/p''] [''chrome'', ''fb''] []
     = ([''https://a/p [ua:chrome]'', ''https://a/p [ua:fb]'', ''https://b/p [ua:chrome]'',
         ''https://b/p [ua:fb]''], None)
   \<and> \<not> qualifies (Some login_wall)
   \<and> fb_scrape sample_platform (\<lambda>n c h. None) ''POST''
       (Some ''{\"url\":\"https://m.facebook.com/story.php?id=1\"}'')
     = FetchFailed
         [''https://m.facebook.com/story.php?id=1 [ua:chrome]'',
          ''https://m.facebook.com/story.php?id=1 [ua:fb]'',
          ''https://mbasic.facebook.com/story.php?id=1 [ua:chrome]'',
          ''https://mbasic.facebook.com/story.php?id=1 [ua:fb]'']"
proof -
  let ?cs = "[''https://a/p'', ''https://b/p'']" and ?uas = "[''chrome'', ''fb'']"
  let ?ps = "[(''https://a/p'', ''chrome''), (''https://a/p'', ''fb''),
      (''https://b/p'', ''chrome''), (''https://b/p'', ''fb'')]"
  have a2: "answer sample_fetch 0 ?ps 2 = Some plain_page"
    by (simp add: answer_def sample_fetch_def)
  have a0: "answer sample_fetch 0 ?ps 0 = Some login_wall"
    by (simp add: answer_def sample_fetch_def)
  have a1: "answer sample_fetch 0 ?ps 1 = None"
    by (simp add: answer_def sample_fetch_def)
  have qp: "qualifies (Some plain_page)"
    using plain_page_passes by (simp add: qualifies_def plain_page_def)
  have ql: "\<not> qualifies (Some login_wall)"
    using static_fetcher_row_major [of ?cs ?uas sample_fetch 0 login_wall,
        THEN conjunct2, THEN conjunct2, THEN conjunct1] login_wall_detected
    by simp
  have qn: "\<not> qualifies None"
    by (simp add: qualifies_def)
  have q01: "\<forall>i<2. \<not> qualifies (answer sample_fetch 0 ?ps i)"
  proof (intro allI impI)
    fix i :: nat assume "i < 2"
    then consider "i = 0" | "i = 1" by linarith
    then show "\<not> qualifies (answer sample_fetch 0 ?ps i)"
      using a0 a1 ql qn by cases simp_all
  qed
  have 1: "candidate_loop sample_fetch ?cs ?uas []
     = ([''https://a/p [ua:chrome]'', ''https://a/p [ua:fb]'', ''https://b/p [ua:chrome]''],
        Some (''<title>A</title>'', ''https://b/p''))"
    using static_fetcher_row_major [of ?cs ?uas sample_fetch 2, THEN conjunct2, THEN conjunct1]
      q01 qp
    unfolding sample_attempts a2
    by (simp add: label_def plain_page_def str_or_def)
  have n: "\<And>ps. \<forall>i<length ps. \<not> qualifies (answer (\<lambda>n c h. None) 0 ps i)"
    by (simp add: answer_def qualifies_def)
  have 2: "candidate_loop (\<lambda>n c h. None) ?cs ?uas []
     = ([''https://a/p [ua:chrome]'', ''https://a/p [ua:fb]'', ''https://b/p [ua:chrome]'',
         ''https://b/p [ua:fb]''], None)"
    using static_fetcher_row_major [of ?cs ?uas "\<lambda>n c h. None", THEN conjunct1] n
    unfolding sample_attempts by (simp add: label_def)
  have j: "JSON_parse sample_platform ''{\"url\":\"https://m.facebook.com/story.php?id=1\"}''
           = Some (JObj [(''url'', JStr ''https://m.facebook.com/story.php?id=1'')])"
    by (simp add: sample_platform_def sample_json_def)
  have c: "buildCandidateUrls sample_platform ''https://m.facebook.com/story.php?id=1''
           = Inr [''https://m.facebook.com/story.php?id=1'',
                  ''https://mbasic.facebook.com/story.php?id=1'']"
    by (simp add: buildCandidateUrls_def sample_platform_def sample_parse_def web_url_def
        url_host_def url_origin_def url_href_def credentials_def)
  have a: "attempts [''https://m.facebook.com/story.php?id=1'',
                  ''https://mbasic.facebook.com/story.php?id=1''] [''chrome'', ''fb'']
           = [(''https://m.facebook.com/story.php?id=1'', ''chrome''),
              (''https://m.facebook.com/story.php?id=1'', ''fb''),
              (''https://mbasic.facebook.com/story.php?id=1'', ''chrome''),
              (''https://mbasic.facebook.com/story.php?id=1'', ''fb'')]"
    by (simp add: attempts_def)
  have 3: "fb_scrape sample_platform (\<lambda>n c h. None) ''POST''
       (Some ''{\"url\":\"https://m.facebook.com/story.php?id=1\"}'')
     = FetchFailed
         [''https://m.facebook.com/story.php?id=1 [ua:chrome]'',
          ''https://m.facebook.com/story.php?id=1 [ua:fb]'',
          ''https://mbasic.facebook.com/story.php?id=1 [ua:chrome]'',
          ''https://mbasic.facebook.com/story.php?id=1 [ua:fb]'']"
    using static_fetcher_row_major [of
        "[''https://m.facebook.com/story.php?id=1'', ''https://mbasic.facebook.com/story.php?id=1'']"
        "[]" "\<lambda>n c h. None" 0 login_wall
        "''{\"url\":\"https://m.facebook.com/story.php?id=1\"}''" sample_platform
        "[(''url'', JStr ''https://m.facebook.com/story.php?id=1'')]"
        "''https://m.facebook.com/story.php?id=1''",
        THEN conjunct2, THEN conjunct2, THEN conjunct2] j c n
    unfolding a by (simp add: label_def)
  from 1 2 ql 3 show ?thesis by simp
qed

section \<open>The metadata extractor\<close>

lemma first_nonempty3: "first_nonempty [a, b, c] = str_or a (str_or b (str_or c []))"
  by (simp add: first_nonempty_def str_or_def)


text \<open>
  The name is the first of site name, title tag content and page title that is not empty,
  and the caption the first of the three descriptions; every field is a string, empty
  when nothing matches.
\<close>

lemma extractMeta_text_fields:
  "meta_name (extractMeta P html baseUrl)
     = first_nonempty [pick html (meta_rx ''property'' ''og:site_name''),
                       pick html (meta_rx ''property'' ''og:title''), extractTitle html]
   \<and> caption (extractMeta P html baseUrl)
     = first_nonempty [pick html (meta_rx ''property'' ''og:description''),
                       pick html (meta_rx ''name'' ''twitter:description''),
                       pick html (meta_rx ''name'' ''description'')]
   \<and> ogTitle (extractMeta P html baseUrl) = pick html (meta_rx ''property'' ''og:title'')
   \<and> ogDesc (extractMeta P html baseUrl) = pick html (meta_rx ''property'' ''og:description'')
   \<and> rawTitle (extractMeta P html baseUrl) = extractTitle html"
  by (simp add: extractMeta_def Let_def first_nonempty3)












lemma meta_image_unresolvable: "meta_image ''<meta property='og:image' content='http://['>'' = ''http://[''"
  by code_simp








lemma title_double: "extractTitle ''<title>&amp;lt;</title>'' = ''<''"
  by code_simp

lemma decode_double: "decodeHtml ''&amp;lt;'' = ''<''"
  by code_simp

lemma no_site_name: "pick ''<title>&amp;lt;</title>'' (meta_rx ''property'' ''og:site_name'') = []"
  by code_simp

lemma no_og_title: "pick ''<title>&amp;lt;</title>'' (meta_rx ''property'' ''og:title'') = []"
  by code_simp

text \<open>
  C2 at a title that shows the text \<open>&lt;\<close>, written \<open>&amp;lt;\<close> in the page. \<open>decodeHtml\<close>
  replaces \<open>&amp;\<close> first and \<open>&lt;\<close> after it, so it unescapes the text twice: the title and
  the name come out as \<open><\<close>, where unescaping the entities gives \<open>&lt;\<close>.
\<close>

theorem decodeHtml_unescapes_twice:
  "rawTitle (extractMeta P ''<title>&amp;lt;</title>'' baseUrl) = ''<''
   \<and> meta_name (extractMeta P ''<title>&amp;lt;</title>'' baseUrl) = ''<''
   \<and> decodeHtml ''&amp;lt;'' = ''<''
   \<and> unescape_entities ''&amp;lt;'' = ''&lt;''"
proof -
  have 1: "rawTitle (extractMeta P ''<title>&amp;lt;</title>'' baseUrl) = ''<''"
    using extractMeta_text_fields [of P "''<title>&amp;lt;</title>''" baseUrl]
    by (simp only: title_double)
  have 2: "meta_name (extractMeta P ''<title>&amp;lt;</title>'' baseUrl) = ''<''"
    using extractMeta_text_fields [of P "''<title>&amp;lt;</title>''" baseUrl]
    by (simp only: title_double no_site_name no_og_title) (simp add: first_nonempty_def)
  have 3: "unescape_entities ''&amp;lt;'' = ''&lt;''"
    by simp
  from 1 2 decode_double 3 show ?thesis by blast
qed

end
